theory Spec2Isabelle
  imports Complex_Main "HOL-Library.Word" "HOL-Library.Sublist"
begin

section \<open>JavaScript strings\<close>

text \<open>
  A JavaScript string is a sequence of UTF-16 code units. String literals of the
  source are written \<open>js ''...''\<close>; characters outside ASCII are given by their code
  units.
\<close>

type_synonym code_unit = "16 word"
type_synonym jsstring = "code_unit list"

definition js :: "string \<Rightarrow> jsstring" where
  "js s = map of_char s"

text \<open>
  \<open>String.prototype.toLowerCase\<close> on the ASCII letters. The source only calls it in
  \<open>file.name.toLowerCase().endsWith('.pdf')\<close>; no character outside \<open>A-Z\<close> has a
  lower-case mapping that ends in one of the units of \<open>.pdf\<close>, so the other Unicode
  case mappings cannot change that test.
\<close>

definition lowerUnit :: "code_unit \<Rightarrow> code_unit" where
  "lowerUnit c = (if 65 \<le> c \<and> c \<le> 90 then c + 32 else c)"

definition toLowerCase :: "jsstring \<Rightarrow> jsstring" where
  "toLowerCase s = map lowerUnit s"

text \<open>\<open>s.endsWith(t)\<close>: the last \<open>length t\<close> units of \<open>s\<close> are \<open>t\<close>.\<close>

definition endsWith :: "jsstring \<Rightarrow> jsstring \<Rightarrow> bool" where
  "endsWith s t = (length t \<le> length s \<and> drop (length s - length t) s = t)"

text \<open>
  \<open>String.prototype.trim\<close> strips the WhiteSpace and LineTerminator code points of
  ECMAScript from both ends: TAB, LF, VT, FF, CR, SP, NBSP, U+1680, U+2000 to U+200A,
  U+2028, U+2029, U+202F, U+205F, U+3000 and U+FEFF.
\<close>

definition isWhiteSpace :: "code_unit \<Rightarrow> bool" where
  "isWhiteSpace c = (c \<in> set [0x09, 0x0A, 0x0B, 0x0C, 0x0D, 0x20, 0xA0, 0x1680,
      0x2000, 0x2001, 0x2002, 0x2003, 0x2004, 0x2005, 0x2006, 0x2007, 0x2008, 0x2009,
      0x200A, 0x2028, 0x2029, 0x202F, 0x205F, 0x3000, 0xFEFF])"

definition trim :: "jsstring \<Rightarrow> jsstring" where
  "trim s = rev (dropWhile isWhiteSpace (rev (dropWhile isWhiteSpace s)))"

text \<open>\<open>xs.join(sep)\<close> on an array of strings.\<close>

fun join :: "jsstring \<Rightarrow> jsstring list \<Rightarrow> jsstring" where
  "join sep [] = []"
| "join sep [x] = x"
| "join sep (x # y # ys) = x @ sep @ join sep (y # ys)"

text \<open>
  \<open>a || b\<close> where \<open>a\<close> is a string that may be missing: \<open>undefined\<close>, \<open>null\<close> and the
  empty string are falsy.
\<close>

definition orElse :: "jsstring option \<Rightarrow> jsstring \<Rightarrow> jsstring" where
  "orElse a b = (case a of None \<Rightarrow> b | Some s \<Rightarrow> if s = [] then b else s)"

section \<open>The upload component: file selection\<close>

text \<open>
  A browser \<open>File\<close>: its name, size in bytes, MIME type and time of last change.
  \<open>handleFileChange\<close> reads the first three.
\<close>

record upload_file =
  f_name :: jsstring
  f_size :: nat
  f_type :: jsstring
  f_lastModified :: nat

record upload_state =
  selectedFiles :: "upload_file list"
  isUploading :: bool
  up_error :: jsstring
  up_success :: jsstring

definition initUpload :: upload_state where
  "initUpload = \<lparr>selectedFiles = [], isUploading = False, up_error = [], up_success = []\<rparr>"

text \<open>The two tests of the first two guards of the loop body, in positive form.\<close>

definition isPdfFile :: "upload_file \<Rightarrow> bool" where
  "isPdfFile f = (\<not> (f_type f \<noteq> js ''application/pdf''
      \<and> \<not> endsWith (toLowerCase (f_name f)) (js ''.pdf'')))"

definition withinSizeLimit :: "upload_file \<Rightarrow> bool" where
  "withinSizeLimit f = (\<not> f_size f > 10 * 1024 * 1024)"

definition alreadySelected :: "upload_file list \<Rightarrow> upload_file \<Rightarrow> bool" where
  "alreadySelected validFiles f =
     list_ex (\<lambda>g. f_name g = f_name f \<and> f_size g = f_size f) validFiles"

text \<open>
  One round of \<open>files.forEach\<close>: the state of the loop is the pair of the arrays
  \<open>validFiles\<close> and \<open>errors\<close>; each \<open>return\<close> ends the round.
\<close>

definition checkFile :: "upload_file list \<times> jsstring list \<Rightarrow> upload_file \<Rightarrow> upload_file list \<times> jsstring list" where
  "checkFile acc f =
     (let validFiles = fst acc; errors = snd acc in
      if \<not> isPdfFile f then (validFiles, errors @ [f_name f @ js '' is not a PDF file''])
      else if \<not> withinSizeLimit f
        then (validFiles, errors @ [f_name f @ js '' is too large (max 10MB)''])
      else if alreadySelected validFiles f
        then (validFiles, errors @ [f_name f @ js '' is already selected''])
      else (validFiles @ [f], errors))"

definition validateFiles :: "upload_file list \<Rightarrow> upload_file list \<times> jsstring list" where
  "validateFiles files = foldl checkFile ([], []) files"

definition handleFileChange :: "upload_state \<Rightarrow> upload_file list \<Rightarrow> upload_state" where
  "handleFileChange s files =
     (let validFiles = fst (validateFiles files); errors = snd (validateFiles files) in
      s\<lparr>up_error := (if length errors > 0 then join (js '', '') errors else []),
        selectedFiles := validFiles\<rparr>)"

definition removeFile :: "upload_state \<Rightarrow> nat \<Rightarrow> upload_state" where
  "removeFile s index =
     s\<lparr>selectedFiles := map snd (filter (\<lambda>p. fst p \<noteq> index)
                              (zip [0..<length (selectedFiles s)] (selectedFiles s))),
       up_error := []\<rparr>"

text \<open>The key under which the third guard compares two files.\<close>

definition fileKey :: "upload_file \<Rightarrow> jsstring \<times> nat" where
  "fileKey f = (f_name f, f_size f)"

text \<open>
  The selection in the words of the amended claim C2: of the files that pass both
  tests, the first one for each name and size, in the order of the batch.
\<close>

fun firstPerKey :: "(jsstring \<times> nat) list \<Rightarrow> upload_file list \<Rightarrow> upload_file list" where
  "firstPerKey seen [] = []"
| "firstPerKey seen (f # fs) =
     (if fileKey f \<in> set seen then firstPerKey seen fs
      else f # firstPerKey (fileKey f # seen) fs)"

text \<open>The error text of a rejected file starts with the file's name.\<close>

definition rejectionTexts :: "upload_file \<Rightarrow> jsstring list" where
  "rejectionTexts f = [f_name f @ js '' is not a PDF file'',
                       f_name f @ js '' is too large (max 10MB)'',
                       f_name f @ js '' is already selected'']"

text \<open>Sample files; \<open>fileA'\<close> is a second file with the name and size of \<open>fileA\<close>.\<close>

definition fileA :: upload_file where
  "fileA = \<lparr>f_name = js ''a.pdf'', f_size = 1, f_type = js ''application/pdf'',
     f_lastModified = 1\<rparr>"

definition fileA' :: upload_file where
  "fileA' = \<lparr>f_name = js ''a.pdf'', f_size = 1, f_type = js ''application/pdf'',
     f_lastModified = 2\<rparr>"

definition fileTxt :: upload_file where
  "fileTxt = \<lparr>f_name = js ''a.txt'', f_size = 1, f_type = js ''text/plain'',
     f_lastModified = 3\<rparr>"

definition fileBig :: upload_file where
  "fileBig = \<lparr>f_name = js ''B.PDF'', f_size = 10485761, f_type = [], f_lastModified = 4\<rparr>"

section \<open>Decimal numerals and file sizes\<close>

text \<open>The decimal digits of a non-negative integer, as JavaScript prints it.\<close>

function showNat :: "nat \<Rightarrow> jsstring" where
  "showNat n = (if n < 10 then [of_nat (48 + n)] else showNat (n div 10) @ [of_nat (48 + n mod 10)])"
  by pat_completeness auto
termination
  by (relation "measure id") auto

declare showNat.simps [simp del]

text \<open>
  \<open>Math.floor(Math.log(bytes) / Math.log(k))\<close> for \<open>k = 1024\<close> and \<open>bytes > 0\<close>, in
  exact arithmetic: the number of times \<open>bytes\<close> can be divided by 1024 before it
  drops below 1024. Lemma \<open>floorLog1024_log\<close> below relates it to the logarithm.
  The double-precision quotient can differ from the exact one only when \<open>bytes\<close> is
  within rounding error of a power of 1024: for \<open>2^50 - 1\<close> the doubles give 5 where
  the exact index is 4. Both are past the end of \<open>sizes\<close>.
\<close>

function floorLog1024 :: "nat \<Rightarrow> nat" where
  "floorLog1024 n = (if n < 1024 then 0 else Suc (floorLog1024 (n div 1024)))"
  by pat_completeness auto
termination
  by (relation "measure id") auto

declare floorLog1024.simps [simp del]

definition sizes :: "jsstring list" where
  "sizes = [js ''Bytes'', js ''KB'', js ''MB'', js ''GB'']"

text \<open>
  \<open>sizes[i]\<close> inside a string concatenation: an index past the end of the array reads
  \<open>undefined\<close>, which \<open>+\<close> turns into the text \<open>undefined\<close>.
\<close>

definition sizeUnit :: "nat \<Rightarrow> jsstring" where
  "sizeUnit i = (if i < length sizes then sizes ! i else js ''undefined'')"

text \<open>
  \<open>parseFloat(x.toFixed(2))\<close> printed by \<open>+\<close>, for \<open>x = bytes / Math.pow(k, i)\<close>.
  \<open>toFixed(2)\<close> takes the integer \<open>h\<close> nearest to \<open>100 x\<close>, the larger one on a tie;
  the number \<open>h / 100\<close> is then printed without trailing zeros. The division by a
  power of two is exact for the integers a double holds exactly (below \<open>2^53\<close>).
\<close>

definition hundredths :: "nat \<Rightarrow> nat \<Rightarrow> nat" where
  "hundredths bytes i = (200 * bytes + 1024 ^ i) div (2 * 1024 ^ i)"

definition showHundredths :: "nat \<Rightarrow> jsstring" where
  "showHundredths h =
     showNat (h div 100) @
     (if h mod 100 = 0 then []
      else if h mod 10 = 0 then js ''.'' @ showNat (h mod 100 div 10)
      else js ''.'' @ showNat (h mod 100 div 10) @ showNat (h mod 10))"

definition formatFileSize :: "nat \<Rightarrow> jsstring" where
  "formatFileSize bytes =
     (if bytes = 0 then js ''0 Bytes''
      else let i = floorLog1024 bytes in
           showHundredths (hundredths bytes i) @ js '' '' @ sizeUnit i)"

text \<open>The unit suffixes the size display is meant to show.\<close>

definition hasKnownUnit :: "jsstring \<Rightarrow> bool" where
  "hasKnownUnit s = list_ex (\<lambda>u. endsWith s (js '' '' @ u)) sizes"

section \<open>HTTP requests and their outcomes\<close>

datatype http_request =
    GET jsstring
  | POST_chat jsstring jsstring jsstring
  | DELETE jsstring

text \<open>
  What \<open>await axios...\<close> gives: the response body when the promise resolves, or the
  thrown error, of which the handlers read \<open>error.response?.data?.error\<close> (absent when
  there is no response) and \<open>error.message\<close>.
\<close>

datatype 'body axios_result =
    Resolved 'body
  | Rejected "jsstring option" jsstring

text \<open>A response body with only the flag and the error text.\<close>

record plain_body =
  pb_success :: bool
  pb_error :: "jsstring option"

section \<open>The chat component\<close>

datatype sender = User | Bot

text \<open>
  A displayed message. The flags \<open>isLoading\<close> and \<open>isError\<close> are only tested for
  truthiness, so a missing flag is \<open>False\<close>; the other optional fields are \<open>None\<close>
  when the object has none.
\<close>

record message =
  msg_sender :: sender
  msg_text :: jsstring
  msg_timestamp :: jsstring
  msg_isLoading :: bool
  msg_isError :: bool
  msg_responseTime :: "nat option"
  msg_contextUsed :: "bool option"
  msg_sourcesCount :: "nat option"

record history_pair =
  user_message :: jsstring
  bot_response :: jsstring
  pair_timestamp :: jsstring
  response_time_ms :: "nat option"

record history_body =
  hb_success :: bool
  hb_messages :: "history_pair list"

record chat_body =
  cb_success :: bool
  cb_reply :: jsstring
  cb_response_time_ms :: "nat option"
  cb_context_used :: "bool option"
  cb_sources_count :: "nat option"
  cb_error :: "jsstring option"

record chat_state =
  input :: jsstring
  messages :: "message list"
  isLoading :: bool
  isLoadingHistory :: bool
  chat_error :: jsstring

definition initChat :: chat_state where
  "initChat = \<lparr>input = [], messages = [], isLoading = False, isLoadingHistory = True,
               chat_error = []\<rparr>"

definition userMsg :: "jsstring \<Rightarrow> jsstring \<Rightarrow> message" where
  "userMsg txt ts = \<lparr>msg_sender = User, msg_text = txt, msg_timestamp = ts,
     msg_isLoading = False, msg_isError = False, msg_responseTime = None,
     msg_contextUsed = None, msg_sourcesCount = None\<rparr>"

text \<open>The two messages \<open>flatMap\<close> makes of one stored pair.\<close>

definition pairMessages :: "history_pair \<Rightarrow> message list" where
  "pairMessages msg =
     [userMsg (user_message msg) (pair_timestamp msg),
      \<lparr>msg_sender = Bot, msg_text = bot_response msg, msg_timestamp = pair_timestamp msg,
       msg_isLoading = False, msg_isError = False, msg_responseTime = response_time_ms msg,
       msg_contextUsed = None, msg_sourcesCount = None\<rparr>]"

definition historyUrl :: "jsstring \<Rightarrow> jsstring" where
  "historyUrl sessionId = js ''http://localhost:5000/get_chat_history/'' @ sessionId"

text \<open>
  Each handler is one step from the state it is called in to the state when it has
  returned: the outcome of its request is given by \<open>respond\<close>, and no other handler
  runs while it waits.
\<close>

definition loadChatHistory ::
  "chat_state \<Rightarrow> jsstring \<Rightarrow> (http_request \<Rightarrow> history_body axios_result) \<Rightarrow> chat_state" where
  "loadChatHistory s sessionId respond =
     (let s1 = s\<lparr>isLoadingHistory := True\<rparr>;
          s2 = (case respond (GET (historyUrl sessionId)) of
                  Resolved dat \<Rightarrow>
                    if hb_success dat
                    then s1\<lparr>messages := concat (map pairMessages (hb_messages dat))\<rparr>
                    else s1
                | Rejected re m \<Rightarrow> s1\<lparr>chat_error := js ''Failed to load chat history''\<rparr>)
      in s2\<lparr>isLoadingHistory := False\<rparr>)"

text \<open>The placeholder text is U+1F914 (a surrogate pair) and \<open>Thinking...\<close>.\<close>

definition loadingMsg :: "jsstring \<Rightarrow> message" where
  "loadingMsg ts = \<lparr>msg_sender = Bot, msg_text = [0xD83E, 0xDD14] @ js '' Thinking...'',
     msg_timestamp = ts, msg_isLoading = True, msg_isError = False,
     msg_responseTime = None, msg_contextUsed = None, msg_sourcesCount = None\<rparr>"

definition replyMsg :: "chat_body \<Rightarrow> jsstring \<Rightarrow> message" where
  "replyMsg dat ts = \<lparr>msg_sender = Bot, msg_text = cb_reply dat, msg_timestamp = ts,
     msg_isLoading = False, msg_isError = False,
     msg_responseTime = cb_response_time_ms dat, msg_contextUsed = cb_context_used dat,
     msg_sourcesCount = cb_sources_count dat\<rparr>"

text \<open>The error text starts with U+274C.\<close>

definition errorMsg :: "jsstring \<Rightarrow> jsstring \<Rightarrow> message" where
  "errorMsg errorMessage ts = \<lparr>msg_sender = Bot,
     msg_text = [0x274C] @ js '' Error: '' @ errorMessage, msg_timestamp = ts,
     msg_isLoading = False, msg_isError = True, msg_responseTime = None,
     msg_contextUsed = None, msg_sourcesCount = None\<rparr>"

definition withoutLoading :: "message list \<Rightarrow> message list" where
  "withoutLoading prev = filter (\<lambda>msg. \<not> msg_isLoading msg) prev"

text \<open>
  The \<open>catch\<close> block of \<open>sendMessage\<close>, for an error with the given
  \<open>response?.data?.error\<close> and \<open>message\<close>.
\<close>

definition chatErrorMessage :: "jsstring option \<Rightarrow> jsstring \<Rightarrow> jsstring" where
  "chatErrorMessage re m = orElse re (orElse (Some m) (js ''Failed to get response''))"

definition catchChatError :: "chat_state \<Rightarrow> jsstring option \<Rightarrow> jsstring \<Rightarrow> jsstring \<Rightarrow> chat_state" where
  "catchChatError s re m ts =
     (let errorMessage = chatErrorMessage re m in
      s\<lparr>messages := withoutLoading (messages s) @ [errorMsg errorMessage ts],
        chat_error := errorMessage\<rparr>)"

definition chatRequest :: "jsstring \<Rightarrow> jsstring \<Rightarrow> http_request" where
  "chatRequest userMessage sessionId =
     POST_chat (js ''http://localhost:5000/chat'') userMessage sessionId"

text \<open>
  \<open>sendMessage\<close>: \<open>t1\<close>, \<open>t2\<close> and \<open>t3\<close> are the three readings of the clock; the
  result is the new state and the requests that were sent.
\<close>

definition sendMessage ::
  "chat_state \<Rightarrow> jsstring \<Rightarrow> jsstring \<Rightarrow> jsstring \<Rightarrow> jsstring
     \<Rightarrow> (http_request \<Rightarrow> chat_body axios_result) \<Rightarrow> chat_state \<times> http_request list" where
  "sendMessage s sessionId t1 t2 t3 respond =
     (if trim (input s) = [] \<or> isLoading s then (s, [])
      else
        let userMessage = trim (input s);
            s1 = s\<lparr>input := [], chat_error := []\<rparr>;
            s2 = s1\<lparr>messages := messages s1 @ [userMsg userMessage t1]\<rparr>;
            s3 = s2\<lparr>messages := messages s2 @ [loadingMsg t2]\<rparr>;
            s4 = s3\<lparr>isLoading := True\<rparr>;
            req = chatRequest userMessage sessionId;
            s5 = (case respond req of
                    Resolved dat \<Rightarrow>
                      if cb_success dat
                      then s4\<lparr>messages := withoutLoading (messages s4) @ [replyMsg dat t3]\<rparr>
                      else catchChatError s4 None (orElse (cb_error dat) (js ''Unknown error'')) t3
                  | Rejected re m \<Rightarrow> catchChatError s4 re m t3)
        in (s5\<lparr>isLoading := False\<rparr>, [req]))"

text \<open>A turn fails when the request is rejected or the body says \<open>success: false\<close>.\<close>

definition turnFailed :: "chat_body axios_result \<Rightarrow> bool" where
  "turnFailed r = (case r of Resolved dat \<Rightarrow> \<not> cb_success dat | Rejected re m \<Rightarrow> True)"

text \<open>The error text the \<open>catch\<close> block derives for a failed turn.\<close>

definition turnErrorMessage :: "chat_body axios_result \<Rightarrow> jsstring" where
  "turnErrorMessage r =
     (case r of
        Resolved dat \<Rightarrow> chatErrorMessage None (orElse (cb_error dat) (js ''Unknown error''))
      | Rejected re m \<Rightarrow> chatErrorMessage re m)"

text \<open>Sample states and answers of the server.\<close>

definition typedHi :: chat_state where
  "typedHi = initChat\<lparr>input := js '' hi ''\<rparr>"

definition networkDown :: "http_request \<Rightarrow> 'a axios_result" where
  "networkDown req = Rejected None (js ''Network Error'')"

definition accepted :: "http_request \<Rightarrow> plain_body axios_result" where
  "accepted req = Resolved \<lparr>pb_success = True, pb_error = None\<rparr>"

definition samplePair :: history_pair where
  "samplePair = \<lparr>user_message = js ''q'', bot_response = js ''a'',
     pair_timestamp = js ''2024-01-01T00:00:00'', response_time_ms = Some 12\<rparr>"

definition samplePair2 :: history_pair where
  "samplePair2 = \<lparr>user_message = js ''q2'', bot_response = js ''a2'',
     pair_timestamp = js ''2024-01-01T00:05:00'', response_time_ms = None\<rparr>"

definition sampleHistory :: "http_request \<Rightarrow> history_body axios_result" where
  "sampleHistory req = Resolved \<lparr>hb_success = True, hb_messages = [samplePair, samplePair2]\<rparr>"

text \<open>A server that answers with status 200 and \<open>success: false\<close>.\<close>

definition refused :: "http_request \<Rightarrow> plain_body axios_result" where
  "refused req = Resolved \<lparr>pb_success = False, pb_error = Some (js ''Database error'')\<rparr>"

definition oneMessage :: chat_state where
  "oneMessage = initChat\<lparr>messages := [userMsg (js ''q'') (js ''t1'')], isLoadingHistory := False\<rparr>"

definition clearUrl :: "jsstring \<Rightarrow> jsstring" where
  "clearUrl sessionId = js ''http://localhost:5000/clear_chat/'' @ sessionId"

text \<open>
  \<open>clearChat\<close>: \<open>confirmed\<close> is the answer of \<open>window.confirm\<close>. A resolved request
  clears the list whatever its body says.
\<close>

definition clearChat ::
  "chat_state \<Rightarrow> jsstring \<Rightarrow> bool \<Rightarrow> (http_request \<Rightarrow> plain_body axios_result) \<Rightarrow> chat_state" where
  "clearChat s sessionId confirmed respond =
     (if confirmed
      then (case respond (DELETE (clearUrl sessionId)) of
              Resolved dat \<Rightarrow> s\<lparr>messages := [], chat_error := []\<rparr>
            | Rejected re m \<Rightarrow> s\<lparr>chat_error := js ''Failed to clear chat''\<rparr>)
      else s)"

text \<open>The states the component can be in between two handlers.\<close>

inductive reachable :: "chat_state \<Rightarrow> bool" where
  start: "reachable initChat"
| typing: "reachable s \<Longrightarrow> reachable (s\<lparr>input := v\<rparr>)"
| dismiss: "reachable s \<Longrightarrow> reachable (s\<lparr>chat_error := []\<rparr>)"
| history: "reachable s \<Longrightarrow> reachable (loadChatHistory s sessionId respondH)"
| send: "reachable s \<Longrightarrow> reachable (fst (sendMessage s sessionId t1 t2 t3 respondC))"
| clear: "reachable s \<Longrightarrow> reachable (clearChat s sessionId confirmed respondD)"

section \<open>The application shell and the document list\<close>

record pdf =
  pdf_id :: nat
  original_filename :: jsstring
  file_size :: nat
  upload_time :: jsstring
  chunk_count :: "nat option"

record session_info =
  info_session_id :: jsstring
  created_at :: jsstring
  last_activity :: jsstring
  pdf_count :: nat
  message_count :: nat

record info_body =
  ib_success :: bool
  ib_session :: session_info

record app_state =
  sessionId :: jsstring
  uploadedPDFs :: "pdf list"
  app_isLoading :: bool
  app_error :: jsstring
  sessionInfo :: "session_info option"

definition sessionInfoUrl :: "jsstring \<Rightarrow> jsstring" where
  "sessionInfoUrl sid = js ''http://localhost:5000/session_info/'' @ sid"

definition loadSessionInfo ::
  "app_state \<Rightarrow> (http_request \<Rightarrow> info_body axios_result) \<Rightarrow> app_state" where
  "loadSessionInfo s respond =
     (case respond (GET (sessionInfoUrl (sessionId s))) of
        Resolved dat \<Rightarrow> if ib_success dat then s\<lparr>sessionInfo := Some (ib_session dat)\<rparr> else s
      | Rejected re m \<Rightarrow> s)"

definition handlePDFsUploaded ::
  "app_state \<Rightarrow> pdf list \<Rightarrow> (http_request \<Rightarrow> info_body axios_result) \<Rightarrow> app_state" where
  "handlePDFsUploaded s newPDFs respond =
     loadSessionInfo (s\<lparr>uploadedPDFs := uploadedPDFs s @ newPDFs\<rparr>) respond"

definition handlePDFRemoved ::
  "app_state \<Rightarrow> nat \<Rightarrow> (http_request \<Rightarrow> info_body axios_result) \<Rightarrow> app_state" where
  "handlePDFRemoved s pdfId respond =
     loadSessionInfo (s\<lparr>uploadedPDFs := filter (\<lambda>pdf. pdf_id pdf \<noteq> pdfId) (uploadedPDFs s)\<rparr>)
       respond"

text \<open>
  The document manager is rendered by the shell with the shell's session id and
  \<open>handlePDFRemoved\<close> as its \<open>onPDFRemoved\<close>, so \<open>removePDF\<close> steps both states.
\<close>

record manager_state =
  isRemoving :: "nat \<rightharpoonup> bool"
  pm_error :: jsstring

definition removeUrl :: "jsstring \<Rightarrow> nat \<Rightarrow> jsstring" where
  "removeUrl sid pdfId = js ''http://localhost:5000/remove_pdf/'' @ sid @ js ''/'' @ showNat pdfId"

definition removeErrorMessage :: "jsstring option \<Rightarrow> jsstring \<Rightarrow> jsstring" where
  "removeErrorMessage re m = orElse re (orElse (Some m) (js ''Failed to remove PDF''))"

definition catchRemoveError :: "manager_state \<Rightarrow> jsstring \<Rightarrow> jsstring option \<Rightarrow> jsstring \<Rightarrow> manager_state" where
  "catchRemoveError m filename re msg =
     m\<lparr>pm_error := js ''Failed to remove '' @ filename @ js '': '' @ removeErrorMessage re msg\<rparr>"

definition removePDF ::
  "app_state \<times> manager_state \<Rightarrow> nat \<Rightarrow> jsstring \<Rightarrow> bool
     \<Rightarrow> (http_request \<Rightarrow> plain_body axios_result)
     \<Rightarrow> (http_request \<Rightarrow> info_body axios_result) \<Rightarrow> app_state \<times> manager_state" where
  "removePDF st pdfId filename confirmed respond respondInfo =
     (let app = fst st; m = snd st in
      if \<not> confirmed then (app, m)
      else
        let m1 = m\<lparr>isRemoving := (isRemoving m)(pdfId \<mapsto> True)\<rparr>;
            m2 = m1\<lparr>pm_error := []\<rparr>;
            r = (case respond (DELETE (removeUrl (sessionId app) pdfId)) of
                   Resolved dat \<Rightarrow>
                     if pb_success dat then (handlePDFRemoved app pdfId respondInfo, m2)
                     else (app, catchRemoveError m2 filename None
                                  (orElse (pb_error dat) (js ''Failed to remove PDF'')))
                 | Rejected re msg \<Rightarrow> (app, catchRemoveError m2 filename re msg));
            m3 = snd r
        in (fst r, m3\<lparr>isRemoving := (isRemoving m3)(pdfId \<mapsto> False)\<rparr>))"

text \<open>A removal succeeds when it is confirmed, resolves and reports \<open>success\<close>.\<close>

definition removalSucceeds :: "bool \<Rightarrow> plain_body axios_result \<Rightarrow> bool" where
  "removalSucceeds confirmed r =
     (confirmed \<and> (case r of Resolved dat \<Rightarrow> pb_success dat | Rejected re msg \<Rightarrow> False))"

text \<open>Sample documents and states.\<close>

definition pdfOne :: pdf where
  "pdfOne = \<lparr>pdf_id = 1, original_filename = js ''a.pdf'', file_size = 2048,
     upload_time = js ''2024-01-01T00:00:00'', chunk_count = Some 3\<rparr>"

definition pdfTwo :: pdf where
  "pdfTwo = \<lparr>pdf_id = 2, original_filename = js ''b.pdf'', file_size = 4096,
     upload_time = js ''2024-01-02T00:00:00'', chunk_count = None\<rparr>"

definition twoDocs :: app_state where
  "twoDocs = \<lparr>sessionId = js ''s1'', uploadedPDFs = [pdfOne, pdfTwo], app_isLoading = False,
     app_error = [], sessionInfo = None\<rparr>"

definition idleManager :: manager_state where
  "idleManager = \<lparr>isRemoving = Map.empty, pm_error = []\<rparr>"

section \<open>The chunker\<close>

text \<open>
  Modelled from the spec: the Chunker of the backend, which is not among the sources.
  Section 4.2: the input is plain text and a configuration of \<open>chunk_size\<close> and
  \<open>overlap\<close>; a window of \<open>chunk_size\<close> slides over the text and advances by
  \<open>chunk_size - overlap\<close>; the last chunk may be shorter; \<open>overlap \<ge> chunk_size\<close> fails
  with \<open>InvalidChunkConfig\<close>; the empty text gives the empty sequence.
\<close>

datatype pipeline_error =
    InvalidInput
  | NotFound
  | UnreadablePDF
  | InvalidChunkConfig
  | EmbeddingUnavailable
  | LLMUnavailable
  | LLMTimeout
  | StorageFailure

record chunk_config =
  chunk_size :: nat
  overlap :: nat

text \<open>
  Modelled from the spec: the windows that start at \<open>0\<close>, \<open>step\<close>, \<open>2 * step\<close>, ... as
  long as the start lies inside the text. A step of \<open>0\<close> would never end; the chunker
  excludes it before it calls \<open>windows\<close>.
\<close>

function windows :: "nat \<Rightarrow> nat \<Rightarrow> 'a list \<Rightarrow> 'a list list" where
  "windows width step txt =
     (if txt = [] \<or> step = 0 then []
      else take width txt # windows width step (drop step txt))"
  by pat_completeness auto
termination
  by (relation "measure (\<lambda>(width, step, txt). length txt)") auto

declare windows.simps [simp del]

definition chunker :: "chunk_config \<Rightarrow> 'a list \<Rightarrow> pipeline_error + 'a list list" where
  "chunker cfg txt =
     (if overlap cfg \<ge> chunk_size cfg then Inl InvalidChunkConfig
      else Inr (windows (chunk_size cfg) (chunk_size cfg - overlap cfg) txt))"

section \<open>The chunk store and the retriever\<close>

text \<open>
  Modelled from the spec: the entities of section 3 as the backend (not among the
  sources) persists them. A document names the one session it belongs to, a message
  pair names its session, and a chunk names its source document, so it belongs to
  that document's session. Embedding vectors are values of a type \<open>'v\<close>.
\<close>

record document =
  doc_session :: jsstring
  doc_filename :: jsstring
  doc_size :: nat
  doc_uploaded :: nat

record 'v chunk =
  chunk_id :: nat
  chunk_document :: nat
  chunk_index :: nat
  chunk_text :: jsstring
  chunk_vector :: 'v

record stored_message =
  sm_session :: jsstring
  sm_user_text :: jsstring
  sm_bot_text :: jsstring
  sm_timestamp :: nat
  sm_latency_ms :: nat
  sm_context_used :: bool
  sm_sources_count :: nat

text \<open>
  Modelled from the spec: the persisted state of section 6, one table for each entity
  of section 3: the session identifiers, the documents under their identifier (the
  primary key), the chunk rows and the message pairs in the order they were appended.
\<close>

record 'v store =
  sessions :: "jsstring list"
  documents :: "nat \<rightharpoonup> document"
  chunks :: "'v chunk list"
  stored_messages :: "stored_message list"

definition documentSession :: "'v store \<Rightarrow> nat \<Rightarrow> jsstring option" where
  "documentSession st d = map_option doc_session (documents st d)"

definition chunkSession :: "'v store \<Rightarrow> 'v chunk \<Rightarrow> jsstring option" where
  "chunkSession st c = documentSession st (chunk_document c)"

text \<open>
  Modelled from the spec: the operations that change the persisted state. Sessions
  are created and deleted with their documents and messages (section 3); a document
  is created for an existing session by an upload; \<open>put\<close> persists one chunk of a
  document of the session, \<open>deleteDocument\<close> removes a document and all its chunks
  (section 4.4); \<open>append\<close> persists one message pair of a session and \<open>clear\<close>
  deletes the pairs of a session (section 4.7; \<open>appendMessage\<close> and
  \<open>clearMessages\<close> here). An unknown session or document is
  \<open>NotFound\<close> (section 7), as the foreign keys of section 6 demand; a document
  identifier that is taken is a \<open>StorageFailure\<close>.
\<close>

definition emptyStore :: "'v store" where
  "emptyStore = \<lparr>sessions = [], documents = Map.empty, chunks = [], stored_messages = []\<rparr>"

definition createSession :: "'v store \<Rightarrow> jsstring \<Rightarrow> 'v store" where
  "createSession st sid =
     (if sid \<in> set (sessions st) then st else st\<lparr>sessions := sessions st @ [sid]\<rparr>)"

definition addDocument ::
  "'v store \<Rightarrow> jsstring \<Rightarrow> nat \<Rightarrow> jsstring \<Rightarrow> nat \<Rightarrow> nat \<Rightarrow> pipeline_error + 'v store" where
  "addDocument st sid did filename bytes uploaded =
     (if sid \<notin> set (sessions st) then Inl NotFound
      else if documents st did \<noteq> None then Inl StorageFailure
      else Inr (st\<lparr>documents := (documents st)(did \<mapsto>
                  \<lparr>doc_session = sid, doc_filename = filename, doc_size = bytes,
                   doc_uploaded = uploaded\<rparr>)\<rparr>))"

definition put ::
  "'v store \<Rightarrow> jsstring \<Rightarrow> nat \<Rightarrow> nat \<times> nat \<times> jsstring \<Rightarrow> 'v \<Rightarrow> pipeline_error + 'v store" where
  "put st sid did chunk vector =
     (case documents st did of
        None \<Rightarrow> Inl NotFound
      | Some doc \<Rightarrow>
          if doc_session doc \<noteq> sid then Inl NotFound
          else Inr (st\<lparr>chunks := chunks st @
                      [\<lparr>chunk_id = fst chunk, chunk_document = did,
                        chunk_index = fst (snd chunk), chunk_text = snd (snd chunk),
                        chunk_vector = vector\<rparr>]\<rparr>))"

definition deleteDocument :: "'v store \<Rightarrow> jsstring \<Rightarrow> nat \<Rightarrow> pipeline_error + 'v store" where
  "deleteDocument st sid did =
     (case documents st did of
        None \<Rightarrow> Inl NotFound
      | Some doc \<Rightarrow>
          if doc_session doc \<noteq> sid then Inl NotFound
          else Inr (st\<lparr>documents := (documents st)(did := None),
                      chunks := filter (\<lambda>c. chunk_document c \<noteq> did) (chunks st)\<rparr>))"

definition appendMessage :: "'v store \<Rightarrow> stored_message \<Rightarrow> pipeline_error + 'v store" where
  "appendMessage st msg =
     (if sm_session msg \<notin> set (sessions st) then Inl NotFound
      else Inr (st\<lparr>stored_messages := stored_messages st @ [msg]\<rparr>))"

definition history :: "'v store \<Rightarrow> jsstring \<Rightarrow> stored_message list" where
  "history st sid = filter (\<lambda>msg. sm_session msg = sid) (stored_messages st)"

definition clearMessages :: "'v store \<Rightarrow> jsstring \<Rightarrow> 'v store" where
  "clearMessages st sid =
     st\<lparr>stored_messages := filter (\<lambda>msg. sm_session msg \<noteq> sid) (stored_messages st)\<rparr>"

definition deleteSession :: "'v store \<Rightarrow> jsstring \<Rightarrow> 'v store" where
  "deleteSession st sid =
     st\<lparr>sessions := removeAll sid (sessions st),
        documents := (\<lambda>did. case documents st did of
                               None \<Rightarrow> None
                             | Some doc \<Rightarrow> if doc_session doc = sid then None else Some doc),
        chunks := filter (\<lambda>c. chunkSession st c \<noteq> Some sid) (chunks st),
        stored_messages := filter (\<lambda>msg. sm_session msg \<noteq> sid) (stored_messages st)\<rparr>"

text \<open>Modelled from the spec: the states the operations lead to from the empty store.\<close>

inductive storeReachable :: "'v store \<Rightarrow> bool" where
  initial: "storeReachable emptyStore"
| session_created: "storeReachable st \<Longrightarrow> storeReachable (createSession st sid)"
| document_added: "storeReachable st \<Longrightarrow>
     addDocument st sid did filename bytes uploaded = Inr st' \<Longrightarrow> storeReachable st'"
| chunk_put: "storeReachable st \<Longrightarrow> put st sid did chunk vector = Inr st' \<Longrightarrow>
     storeReachable st'"
| document_deleted: "storeReachable st \<Longrightarrow> deleteDocument st sid did = Inr st' \<Longrightarrow>
     storeReachable st'"
| message_appended: "storeReachable st \<Longrightarrow> appendMessage st msg = Inr st' \<Longrightarrow>
     storeReachable st'"
| messages_cleared: "storeReachable st \<Longrightarrow> storeReachable (clearMessages st sid)"
| session_deleted: "storeReachable st \<Longrightarrow> storeReachable (deleteSession st sid)"

text \<open>
  Modelled from the spec: the entities a store holds and the session each belongs to.
  Session \<open>S\<close> owns an entity when \<open>S\<close> is a session of the store and the entity
  belongs to it.
\<close>

datatype 'v entity =
    DocumentOf nat
  | ChunkOf "'v chunk"
  | MessageOf stored_message

definition present :: "'v store \<Rightarrow> 'v entity \<Rightarrow> bool" where
  "present st e =
     (case e of
        DocumentOf did \<Rightarrow> documents st did \<noteq> None
      | ChunkOf c \<Rightarrow> c \<in> set (chunks st)
      | MessageOf msg \<Rightarrow> msg \<in> set (stored_messages st))"

definition owner :: "'v store \<Rightarrow> 'v entity \<Rightarrow> jsstring option" where
  "owner st e =
     (case e of
        DocumentOf did \<Rightarrow> documentSession st did
      | ChunkOf c \<Rightarrow> chunkSession st c
      | MessageOf msg \<Rightarrow> Some (sm_session msg))"

definition owns :: "'v store \<Rightarrow> jsstring \<Rightarrow> 'v entity \<Rightarrow> bool" where
  "owns st S e = (S \<in> set (sessions st) \<and> owner st e = Some S)"

text \<open>
  Modelled from the spec: section 4.4, the order of the results. A chunk comes first
  when it is more similar to the query; on equal similarity the lower sequence index,
  then the earlier document, wins. The similarity \<open>sim\<close> (cosine similarity or an
  equivalent measure) is a parameter.
\<close>

definition ranksBefore ::
  "'v store \<Rightarrow> ('v \<Rightarrow> 'v \<Rightarrow> 's::linorder) \<Rightarrow> 'v \<Rightarrow> 'v chunk \<Rightarrow> 'v chunk \<Rightarrow> bool" where
  "ranksBefore st sim q c1 c2 =
     (let s1 = sim q (chunk_vector c1); s2 = sim q (chunk_vector c2);
          k1 = (chunk_index c1, map_option doc_uploaded (documents st (chunk_document c1)));
          k2 = (chunk_index c2, map_option doc_uploaded (documents st (chunk_document c2)))
      in s1 > s2 \<or> (s1 = s2 \<and>
           (fst k1 < fst k2 \<or> (fst k1 = fst k2 \<and>
              (case (snd k1, snd k2) of (Some u1, Some u2) \<Rightarrow> u1 \<le> u2 | _ \<Rightarrow> True)))))"

fun insertRanked :: "('a \<Rightarrow> 'a \<Rightarrow> bool) \<Rightarrow> 'a \<Rightarrow> 'a list \<Rightarrow> 'a list" where
  "insertRanked before x [] = [x]"
| "insertRanked before x (y # ys) =
     (if before x y then x # y # ys else y # insertRanked before x ys)"

definition sortRanked :: "('a \<Rightarrow> 'a \<Rightarrow> bool) \<Rightarrow> 'a list \<Rightarrow> 'a list" where
  "sortRanked before xs = foldr (insertRanked before) xs []"

text \<open>
  Modelled from the spec: \<open>query(sessionId, vector, k)\<close>, a linear scan over the chunks
  of the session that returns the \<open>k\<close> most similar ones.
\<close>

definition query ::
  "'v store \<Rightarrow> ('v \<Rightarrow> 'v \<Rightarrow> 's::linorder) \<Rightarrow> jsstring \<Rightarrow> 'v \<Rightarrow> nat \<Rightarrow> 'v chunk list" where
  "query st sim sid q k =
     take k (sortRanked (ranksBefore st sim q)
               (filter (\<lambda>c. chunkSession st c = Some sid) (chunks st)))"

text \<open>
  Modelled from the spec: section 4.5, \<open>retrieve(sessionId, queryText, k)\<close> embeds the
  text (the embedder may fail) and queries the store; a result is the chunk text, the
  document identifier and the score.
\<close>

definition retrieve ::
  "'v store \<Rightarrow> (jsstring \<Rightarrow> pipeline_error + 'v) \<Rightarrow> ('v \<Rightarrow> 'v \<Rightarrow> 's::linorder)
     \<Rightarrow> jsstring \<Rightarrow> jsstring \<Rightarrow> nat \<Rightarrow> pipeline_error + (jsstring \<times> nat \<times> 's) list" where
  "retrieve st embedder sim sid queryText k =
     (case embedder queryText of
        Inl e \<Rightarrow> Inl e
      | Inr q \<Rightarrow> Inr (map (\<lambda>c. (chunk_text c, chunk_document c, sim q (chunk_vector c)))
                       (query st sim sid q k)))"

text \<open>
  A sample store: one document in each of two sessions, with integer vectors and the
  negated distance as similarity.
\<close>

definition docOfS1 :: document where
  "docOfS1 = \<lparr>doc_session = js ''s1'', doc_filename = js ''a.pdf'', doc_size = 2048,
     doc_uploaded = 1\<rparr>"

definition docOfS2 :: document where
  "docOfS2 = \<lparr>doc_session = js ''s2'', doc_filename = js ''b.pdf'', doc_size = 4096,
     doc_uploaded = 2\<rparr>"

definition chunkAA :: "int chunk" where
  "chunkAA = \<lparr>chunk_id = 1, chunk_document = 10, chunk_index = 0, chunk_text = js ''aa'',
     chunk_vector = 5\<rparr>"

definition chunkBB :: "int chunk" where
  "chunkBB = \<lparr>chunk_id = 2, chunk_document = 20, chunk_index = 0, chunk_text = js ''bb'',
     chunk_vector = 0\<rparr>"

definition chunkCC :: "int chunk" where
  "chunkCC = \<lparr>chunk_id = 3, chunk_document = 10, chunk_index = 1, chunk_text = js ''cc'',
     chunk_vector = 1\<rparr>"

definition firstTurn :: stored_message where
  "firstTurn = \<lparr>sm_session = js ''s2'', sm_user_text = js ''q'', sm_bot_text = js ''a'',
     sm_timestamp = 3, sm_latency_ms = 12, sm_context_used = True, sm_sources_count = 1\<rparr>"

definition twoSessions :: "int store" where
  "twoSessions = \<lparr>sessions = [js ''s1'', js ''s2''],
     documents = [10 \<mapsto> docOfS1, 20 \<mapsto> docOfS2],
     chunks = [chunkAA, chunkBB, chunkCC],
     stored_messages = [firstTurn]\<rparr>"

definition zeroEmbedder :: "jsstring \<Rightarrow> pipeline_error + int" where
  "zeroEmbedder queryText = Inr 0"

definition closeness :: "int \<Rightarrow> int \<Rightarrow> int" where
  "closeness q v = - \<bar>q - v\<bar>"

section \<open>Properties of the file selection\<close>

lemma alreadySelected_iff: "alreadySelected vs f \<longleftrightarrow> fileKey f \<in> fileKey ` set vs"
proof -
  have "alreadySelected vs f \<longleftrightarrow> (\<exists>g\<in>set vs. fileKey g = fileKey f)"
    by (simp add: alreadySelected_def list_ex_iff fileKey_def)
  also have "\<dots> \<longleftrightarrow> fileKey f \<in> fileKey ` set vs"
    by (blast intro: sym)
  finally show ?thesis .
qed

lemma firstPerKey_cong_set:
  "set s1 = set s2 \<Longrightarrow> firstPerKey s1 xs = firstPerKey s2 xs"
proof (induction xs arbitrary: s1 s2)
  case Nil
  show ?case by simp
next
  case (Cons x xs)
  have "firstPerKey (fileKey x # s1) xs = firstPerKey (fileKey x # s2) xs"
    by (rule Cons.IH) (simp add: Cons.prems)
  moreover have "firstPerKey s1 xs = firstPerKey s2 xs"
    by (rule Cons.IH) (rule Cons.prems)
  ultimately show ?case using Cons.prems by simp
qed

lemma checkFile_fst:
  "fst (checkFile (vs, es) f) =
     (if isPdfFile f \<and> withinSizeLimit f \<and> fileKey f \<notin> fileKey ` set vs then vs @ [f] else vs)"
  by (simp add: checkFile_def Let_def alreadySelected_iff)

lemma fst_foldl_checkFile:
  "fst (foldl checkFile (vs, es) fs)
     = vs @ firstPerKey (map fileKey vs) (filter (\<lambda>f. isPdfFile f \<and> withinSizeLimit f) fs)"
proof (induction fs arbitrary: vs es)
  case Nil
  show ?case by simp
next
  case (Cons f fs)
  obtain vs' es' where step: "checkFile (vs, es) f = (vs', es')"
    by (cases "checkFile (vs, es) f")
  have vs': "vs' = (if isPdfFile f \<and> withinSizeLimit f \<and> fileKey f \<notin> fileKey ` set vs
                    then vs @ [f] else vs)"
    using checkFile_fst [of vs es f] step by simp
  have seen: "firstPerKey (map fileKey vs @ [fileKey f]) xs = firstPerKey (fileKey f # map fileKey vs) xs"
    for xs
    by (rule firstPerKey_cong_set) auto
  have "fst (foldl checkFile (vs, es) (f # fs)) = fst (foldl checkFile (vs', es') fs)"
    by (simp add: step)
  also have "\<dots> = vs' @ firstPerKey (map fileKey vs') (filter (\<lambda>f. isPdfFile f \<and> withinSizeLimit f) fs)"
    by (rule Cons.IH)
  also have "\<dots> = vs @ firstPerKey (map fileKey vs) (filter (\<lambda>f. isPdfFile f \<and> withinSizeLimit f) (f # fs))"
    by (simp add: vs' seen)
  finally show ?case .
qed

lemma firstPerKey_fresh: "k \<in> set seen \<Longrightarrow> k \<notin> fileKey ` set (firstPerKey seen fs)"
  by (induction seen fs rule: firstPerKey.induct) auto

lemma firstPerKey_distinct: "distinct (map fileKey (firstPerKey seen fs))"
proof (induction seen fs rule: firstPerKey.induct)
  case (1 seen)
  show ?case by simp
next
  case (2 seen f fs)
  show ?case
  proof (cases "fileKey f \<in> set seen")
    case True
    with 2 show ?thesis by simp
  next
    case False
    have "fileKey f \<notin> fileKey ` set (firstPerKey (fileKey f # seen) fs)"
      by (rule firstPerKey_fresh) simp
    with False 2 show ?thesis by simp
  qed
qed

lemma firstPerKey_subseq: "subseq (firstPerKey seen fs) fs"
  by (induction seen fs rule: firstPerKey.induct) auto

lemma firstPerKey_covers:
  "f \<in> set fs \<Longrightarrow> fileKey f \<in> set seen \<union> fileKey ` set (firstPerKey seen fs)"
  by (induction seen fs rule: firstPerKey.induct) auto

lemma validateFiles_snoc: "validateFiles (fs @ [f]) = checkFile (validateFiles fs) f"
  by (simp add: validateFiles_def)

lemma fst_validateFiles:
  "fst (validateFiles fs) = firstPerKey [] (filter (\<lambda>f. isPdfFile f \<and> withinSizeLimit f) fs)"
  using fst_foldl_checkFile [of "[]" "[]" fs] by (simp add: validateFiles_def)

lemma selectedFiles_handleFileChange:
  "selectedFiles (handleFileChange s fs) = fst (validateFiles fs)"
  by (simp add: handleFileChange_def Let_def)

lemma join_Nil_if: "(if length es > 0 then join sep es else []) = join sep es"
  by (cases es) simp_all

lemma sample_isPdfFile:
  "isPdfFile fileA" "isPdfFile fileA'" "\<not> isPdfFile fileTxt" "isPdfFile fileBig"
  by (simp_all add: isPdfFile_def fileA_def fileA'_def fileTxt_def fileBig_def js_def
        endsWith_def toLowerCase_def lowerUnit_def)

lemma sample_withinSizeLimit:
  "withinSizeLimit fileA" "withinSizeLimit fileA'" "withinSizeLimit fileTxt"
  "\<not> withinSizeLimit fileBig"
  by (simp_all add: withinSizeLimit_def fileA_def fileA'_def fileTxt_def fileBig_def)

lemma sample_keys:
  "fileKey fileA' = fileKey fileA" "fileA' \<noteq> fileA"
  by (simp_all add: fileKey_def fileA_def fileA'_def js_def)

lemma sample_validateFiles:
  "validateFiles [fileA, fileA'] = ([fileA], [js ''a.pdf is already selected''])"
  by (simp add: validateFiles_def checkFile_def sample_isPdfFile sample_withinSizeLimit
        alreadySelected_iff sample_keys)
     (simp add: fileA'_def js_def)

text \<open>
  C9. After every run of the file-selection handler, no two entries of the selected
  files have both the same name and the same size: the keys of the selection are
  pairwise distinct, for every batch and every earlier state.
\<close>

theorem selection_duplicate_free:
  "distinct (map fileKey (selectedFiles (handleFileChange s files))) \<and>
   (\<forall>i j. i < j \<and> j < length (selectedFiles (handleFileChange s files)) \<longrightarrow>
      \<not> (f_name (selectedFiles (handleFileChange s files) ! i)
             = f_name (selectedFiles (handleFileChange s files) ! j)
         \<and> f_size (selectedFiles (handleFileChange s files) ! i)
             = f_size (selectedFiles (handleFileChange s files) ! j)))"
proof -
  let ?sel = "selectedFiles (handleFileChange s files)"
  have d: "distinct (map fileKey ?sel)"
    by (simp add: selectedFiles_handleFileChange fst_validateFiles firstPerKey_distinct)
  have "fileKey (?sel ! i) \<noteq> fileKey (?sel ! j)" if "i < j" "j < length ?sel" for i j
  proof -
    from that have "map fileKey ?sel ! i \<noteq> map fileKey ?sel ! j"
      using nth_eq_iff_index_eq [OF d, of i j] by simp
    with that show ?thesis by simp
  qed
  then have "\<forall>i j. i < j \<and> j < length ?sel \<longrightarrow>
      \<not> (f_name (?sel ! i) = f_name (?sel ! j) \<and> f_size (?sel ! i) = f_size (?sel ! j))"
    by (auto simp: fileKey_def)
  with d show ?thesis by blast
qed

theorem selection_duplicate_free_witness:
  "selectedFiles (handleFileChange initUpload [fileA, fileA']) = [fileA] \<and>
   distinct (map fileKey (selectedFiles (handleFileChange initUpload [fileA, fileA'])))"
  using selection_duplicate_free [of initUpload "[fileA, fileA']"]
  by (simp add: selectedFiles_handleFileChange sample_validateFiles)

text \<open>
  C2, as the claim states it, fails: a second file with the name and size of one that
  is already accepted is a PDF within the size limit, and is not selected.
\<close>

theorem selection_all_valid_counterexample:
  "fileA' \<in> set [fileA, fileA'] \<and> isPdfFile fileA' \<and> withinSizeLimit fileA' \<and>
   fileA' \<notin> set (selectedFiles (handleFileChange initUpload [fileA, fileA']))"
  by (simp add: selectedFiles_handleFileChange sample_validateFiles sample_isPdfFile
        sample_withinSizeLimit sample_keys)

text \<open>
  C2, amended. The selected files are the files of the batch that are PDFs (by type
  or by name) of at most 10 MiB, in the order of the batch, without those whose name
  and size equal those of an earlier accepted file. The displayed error is the
  collected error texts joined by a comma. One more file at the end of a batch is
  either appended to the selection, with the errors as they were, or it leaves the
  selection as it was and adds one error text that starts with its own name.
\<close>

theorem selection_first_valid_per_key:
  "selectedFiles (handleFileChange s files)
     = firstPerKey [] (filter (\<lambda>f. isPdfFile f \<and> withinSizeLimit f) files) \<and>
   up_error (handleFileChange s files) = join (js '', '') (snd (validateFiles files)) \<and>
   (if isPdfFile f \<and> withinSizeLimit f \<and> fileKey f \<notin> fileKey ` set (fst (validateFiles files))
    then validateFiles (files @ [f]) = (fst (validateFiles files) @ [f], snd (validateFiles files))
    else fst (validateFiles (files @ [f])) = fst (validateFiles files) \<and>
         (\<exists>e \<in> set (rejectionTexts f).
             snd (validateFiles (files @ [f])) = snd (validateFiles files) @ [e]))"
proof -
  have sel: "selectedFiles (handleFileChange s files)
     = firstPerKey [] (filter (\<lambda>f. isPdfFile f \<and> withinSizeLimit f) files)"
    by (simp add: selectedFiles_handleFileChange fst_validateFiles)
  have err: "up_error (handleFileChange s files) = join (js '', '') (snd (validateFiles files))"
    by (simp add: handleFileChange_def Let_def join_Nil_if)
  obtain vs es where v: "validateFiles files = (vs, es)"
    by (cases "validateFiles files")
  have step: "validateFiles (files @ [f]) = checkFile (vs, es) f"
    by (simp add: validateFiles_snoc v)
  have last: "if isPdfFile f \<and> withinSizeLimit f \<and> fileKey f \<notin> fileKey ` set vs
    then checkFile (vs, es) f = (vs @ [f], es)
    else fst (checkFile (vs, es) f) = vs \<and>
         (\<exists>e \<in> set (rejectionTexts f). snd (checkFile (vs, es) f) = es @ [e])"
    by (simp add: checkFile_def Let_def alreadySelected_iff rejectionTexts_def)
  from sel err last show ?thesis
    by (simp add: step v)
qed

theorem selection_first_valid_per_key_witness:
  "\<not> isPdfFile fileTxt \<and>
   selectedFiles (handleFileChange initUpload [fileA, fileA']) = [fileA] \<and>
   fst (validateFiles [fileA, fileA', fileTxt]) = [fileA]"
proof -
  note t = selection_first_valid_per_key [of initUpload "[fileA, fileA']" fileTxt]
  have "selectedFiles (handleFileChange initUpload [fileA, fileA'])
          = firstPerKey [] (filter (\<lambda>f. isPdfFile f \<and> withinSizeLimit f) [fileA, fileA'])"
    by (rule t [THEN conjunct1])
  then have a: "selectedFiles (handleFileChange initUpload [fileA, fileA']) = [fileA]"
    by (simp add: sample_isPdfFile sample_withinSizeLimit sample_keys)
  have "fst (validateFiles [fileA, fileA', fileTxt]) = fst (validateFiles [fileA, fileA'])"
    using t [THEN conjunct2, THEN conjunct2] sample_isPdfFile(3) by simp
  then have b: "fst (validateFiles [fileA, fileA', fileTxt]) = [fileA]"
    by (simp add: sample_validateFiles)
  from a b sample_isPdfFile(3) show ?thesis by simp
qed

section \<open>Properties of the chat component\<close>

lemma trim_Nil_iff: "trim s = [] \<longleftrightarrow> list_all isWhiteSpace s"
proof -
  have "(\<forall>x \<in> set (dropWhile isWhiteSpace s). isWhiteSpace x) \<longleftrightarrow> (\<forall>x \<in> set s. isWhiteSpace x)"
  proof
    assume a: "\<forall>x \<in> set (dropWhile isWhiteSpace s). isWhiteSpace x"
    have "dropWhile isWhiteSpace s = []"
    proof (rule ccontr)
      assume n: "dropWhile isWhiteSpace s \<noteq> []"
      then have "\<not> isWhiteSpace (hd (dropWhile isWhiteSpace s))"
        by (rule hd_dropWhile)
      moreover from n have "hd (dropWhile isWhiteSpace s) \<in> set (dropWhile isWhiteSpace s)"
        by simp
      ultimately show False using a by blast
    qed
    then show "\<forall>x \<in> set s. isWhiteSpace x"
      by simp
  next
    assume "\<forall>x \<in> set s. isWhiteSpace x"
    then show "\<forall>x \<in> set (dropWhile isWhiteSpace s). isWhiteSpace x"
      by (blast dest: set_dropWhileD)
  qed
  then show ?thesis
    by (simp add: trim_def list_all_iff)
qed

lemma orElse_nonempty: "b \<noteq> [] \<Longrightarrow> orElse a b \<noteq> []"
  by (simp add: orElse_def split: option.splits)

lemma chatErrorMessage_nonempty: "chatErrorMessage re m \<noteq> []"
  by (simp add: chatErrorMessage_def orElse_nonempty js_def)

lemma turnErrorMessage_nonempty: "turnErrorMessage r \<noteq> []"
  by (cases r) (simp_all add: turnErrorMessage_def chatErrorMessage_nonempty)

lemma withoutLoading_simps:
  "withoutLoading [] = []"
  "withoutLoading (m # ms) = (if msg_isLoading m then withoutLoading ms else m # withoutLoading ms)"
  "withoutLoading (xs @ ys) = withoutLoading xs @ withoutLoading ys"
  "withoutLoading (withoutLoading xs) = withoutLoading xs"
  by (simp_all add: withoutLoading_def)

lemma msg_isLoading_simps:
  "\<not> msg_isLoading (userMsg txt ts)"
  "msg_isLoading (loadingMsg ts)"
  "\<not> msg_isLoading (replyMsg dat ts)"
  "\<not> msg_isLoading (errorMsg e ts)"
  by (simp_all add: userMsg_def loadingMsg_def replyMsg_def errorMsg_def)

lemma withoutLoading_pairMessages: "withoutLoading (pairMessages p) = pairMessages p"
  by (simp add: withoutLoading_def pairMessages_def userMsg_def)

lemma withoutLoading_history:
  "withoutLoading (concat (map pairMessages ps)) = concat (map pairMessages ps)"
  by (induction ps) (simp_all add: withoutLoading_simps withoutLoading_pairMessages)

text \<open>The message list of a turn that passes the guard, for either outcome.\<close>

lemma sendMessage_messages:
  assumes "trim (input s) \<noteq> []" "\<not> isLoading s"
  shows "messages (fst (sendMessage s sid t1 t2 t3 respond))
     = withoutLoading (messages s) @ [userMsg (trim (input s)) t1,
         (case respond (chatRequest (trim (input s)) sid) of
            Resolved dat \<Rightarrow>
              if cb_success dat then replyMsg dat t3
              else errorMsg (turnErrorMessage (Resolved dat)) t3
          | Rejected re m \<Rightarrow> errorMsg (turnErrorMessage (Rejected re m)) t3)]"
  using assms
  by (cases "respond (chatRequest (trim (input s)) sid)")
     (simp_all add: sendMessage_def Let_def catchChatError_def turnErrorMessage_def
        withoutLoading_simps msg_isLoading_simps)

lemma sendMessage_guard:
  "trim (input s) = [] \<or> isLoading s \<Longrightarrow> sendMessage s sid t1 t2 t3 respond = (s, [])"
  by (simp add: sendMessage_def)

lemma reachable_no_placeholder: "reachable s \<Longrightarrow> withoutLoading (messages s) = messages s"
proof (induction rule: reachable.induct)
  case start
  show ?case by (simp add: initChat_def withoutLoading_def)
next
  case (typing s v)
  then show ?case by simp
next
  case (dismiss s)
  then show ?case by simp
next
  case (history s sid respondH)
  then show ?case
    by (simp add: loadChatHistory_def Let_def withoutLoading_history split: axios_result.splits)
next
  case (send s sid t1 t2 t3 respondC)
  show ?case
  proof (cases "trim (input s) = [] \<or> isLoading s")
    case True
    with send show ?thesis by (simp add: sendMessage_guard)
  next
    case False
    then have g: "trim (input s) \<noteq> []" "\<not> isLoading s" by simp_all
    show ?thesis
      unfolding sendMessage_messages [OF g]
      by (cases "respondC (chatRequest (trim (input s)) sid)")
         (simp_all add: withoutLoading_simps msg_isLoading_simps)
  qed
next
  case (clear s sid confirmed respondD)
  then show ?case
    by (simp add: clearChat_def withoutLoading_def split: axios_result.splits)
qed

lemma history_length: "length (concat (map pairMessages ps)) = 2 * length ps"
  by (induction ps) (simp_all add: pairMessages_def)

lemma history_nth:
  "i < length ps \<Longrightarrow>
     concat (map pairMessages ps) ! (2 * i) = pairMessages (ps ! i) ! 0 \<and>
     concat (map pairMessages ps) ! (2 * i + 1) = pairMessages (ps ! i) ! 1"
proof (induction ps arbitrary: i)
  case Nil
  then show ?case by simp
next
  case (Cons p ps)
  show ?case
  proof (cases i)
    case 0
    then show ?thesis by (simp add: pairMessages_def)
  next
    case (Suc k)
    with Cons.prems have k: "k < length ps" by simp
    have "concat (map pairMessages (p # ps)) ! (2 * i) = concat (map pairMessages ps) ! (2 * k)"
      and "concat (map pairMessages (p # ps)) ! (2 * i + 1) = concat (map pairMessages ps) ! (2 * k + 1)"
      using Suc by (simp_all add: pairMessages_def)
    with Cons.IH [OF k] Suc show ?thesis by simp
  qed
qed

lemma sample_trim: "trim (js '' hi '') = js ''hi''"
  by (simp add: trim_def isWhiteSpace_def js_def)

lemma reachable_typedHi: "reachable typedHi"
  unfolding typedHi_def by (rule reachable.typing) (rule reachable.start)

text \<open>
  C3. A chat turn whose request is rejected, or whose response says
  \<open>success: false\<close>, ends with the loading placeholder gone and one bot message marked
  as an error, with a non-empty error text, in its place: the message list is the
  list from before the turn, the user's message of the turn and that error message.
  The error state holds the same text and the component is no longer loading.
\<close>

theorem sendMessage_failed_turn:
  assumes "reachable s"
    and "trim (input s) \<noteq> []" and "\<not> isLoading s"
    and "turnFailed (respond (chatRequest (trim (input s)) sid))"
  shows "messages (fst (sendMessage s sid t1 t2 t3 respond))
           = messages s @ [userMsg (trim (input s)) t1,
               errorMsg (turnErrorMessage (respond (chatRequest (trim (input s)) sid))) t3] \<and>
         loadingMsg t2 \<notin> set (messages (fst (sendMessage s sid t1 t2 t3 respond))) \<and>
         msg_isError (errorMsg (turnErrorMessage (respond (chatRequest (trim (input s)) sid))) t3) \<and>
         msg_sender (errorMsg (turnErrorMessage (respond (chatRequest (trim (input s)) sid))) t3) = Bot \<and>
         msg_text (errorMsg (turnErrorMessage (respond (chatRequest (trim (input s)) sid))) t3)
           = [0x274C] @ js '' Error: '' @ turnErrorMessage (respond (chatRequest (trim (input s)) sid)) \<and>
         turnErrorMessage (respond (chatRequest (trim (input s)) sid)) \<noteq> [] \<and>
         chat_error (fst (sendMessage s sid t1 t2 t3 respond))
           = turnErrorMessage (respond (chatRequest (trim (input s)) sid)) \<and>
         \<not> isLoading (fst (sendMessage s sid t1 t2 t3 respond))"
proof -
  let ?r = "respond (chatRequest (trim (input s)) sid)"
  let ?s' = "fst (sendMessage s sid t1 t2 t3 respond)"
  have inv: "withoutLoading (messages s) = messages s"
    using assms(1) by (rule reachable_no_placeholder)
  have msgs: "messages ?s' = messages s @ [userMsg (trim (input s)) t1, errorMsg (turnErrorMessage ?r) t3]"
    using assms(4) unfolding sendMessage_messages [OF assms(2,3)] inv
    by (cases ?r) (simp_all add: turnFailed_def)
  have "withoutLoading (messages ?s') = messages ?s'"
    unfolding msgs by (simp add: withoutLoading_simps msg_isLoading_simps inv)
  then have "\<forall>m \<in> set (messages ?s'). \<not> msg_isLoading m"
    unfolding withoutLoading_def by (simp add: filter_id_conv)
  then have gone: "loadingMsg t2 \<notin> set (messages ?s')"
    using msg_isLoading_simps(2) by blast
  have err: "chat_error ?s' = turnErrorMessage ?r"
    using assms(2,3,4)
    by (cases ?r) (simp_all add: sendMessage_def Let_def catchChatError_def
          turnErrorMessage_def turnFailed_def)
  have idle: "\<not> isLoading ?s'"
    using assms(2,3) by (simp add: sendMessage_def Let_def)
  have shape: "msg_isError (errorMsg (turnErrorMessage ?r) t3)"
      "msg_sender (errorMsg (turnErrorMessage ?r) t3) = Bot"
      "msg_text (errorMsg (turnErrorMessage ?r) t3) = [0x274C] @ js '' Error: '' @ turnErrorMessage ?r"
    by (simp_all add: errorMsg_def)
  from msgs gone shape turnErrorMessage_nonempty [of ?r] err idle show ?thesis
    by blast
qed

theorem sendMessage_failed_turn_witness:
  "reachable typedHi \<and> trim (input typedHi) \<noteq> [] \<and> \<not> isLoading typedHi \<and>
   turnFailed (networkDown (chatRequest (trim (input typedHi)) (js ''s1''))) \<and>
   messages (fst (sendMessage typedHi (js ''s1'') (js ''t1'') (js ''t2'') (js ''t3'') networkDown))
     = [userMsg (js ''hi'') (js ''t1''), errorMsg (js ''Network Error'') (js ''t3'')]"
proof -
  have i: "input typedHi = js '' hi ''" and m: "messages typedHi = []"
    and l: "\<not> isLoading typedHi"
    by (simp_all add: typedHi_def initChat_def)
  have t: "trim (input typedHi) \<noteq> []"
    by (simp add: i sample_trim) (simp add: js_def)
  have f: "turnFailed (networkDown (chatRequest (trim (input typedHi)) (js ''s1'')))"
    by (simp add: turnFailed_def networkDown_def)
  have e: "turnErrorMessage (networkDown req) = js ''Network Error''" for req
    by (simp add: turnErrorMessage_def networkDown_def chatErrorMessage_def orElse_def js_def)
  from sendMessage_failed_turn [where s = typedHi and respond = networkDown and sid = "js ''s1''"
      and ?t1.0 = "js ''t1''" and ?t2.0 = "js ''t2''" and ?t3.0 = "js ''t3''", OF reachable_typedHi t l f]
  have "messages (fst (sendMessage typedHi (js ''s1'') (js ''t1'') (js ''t2'') (js ''t3'') networkDown))
     = [userMsg (js ''hi'') (js ''t1''), errorMsg (js ''Network Error'') (js ''t3'')]"
    by (simp add: m e i sample_trim)
  with reachable_typedHi t l f show ?thesis by simp
qed

text \<open>
  C10. When the input is empty or consists of white space only, or a chat request is
  in flight, \<open>sendMessage\<close> returns the state it was called in (message list, input
  and error state included) and sends no request.
\<close>

theorem sendMessage_blocked:
  "list_all isWhiteSpace (input s) \<or> isLoading s \<Longrightarrow>
     sendMessage s sid t1 t2 t3 respond = (s, []) \<and>
     messages (fst (sendMessage s sid t1 t2 t3 respond)) = messages s \<and>
     input (fst (sendMessage s sid t1 t2 t3 respond)) = input s \<and>
     chat_error (fst (sendMessage s sid t1 t2 t3 respond)) = chat_error s \<and>
     snd (sendMessage s sid t1 t2 t3 respond) = []"
  by (simp add: sendMessage_guard trim_Nil_iff)

theorem sendMessage_blocked_witness:
  "list_all isWhiteSpace (input (initChat\<lparr>input := [0x20, 0x0A, 0xA0]\<rparr>)) \<and>
   sendMessage (initChat\<lparr>input := [0x20, 0x0A, 0xA0]\<rparr>) (js ''s1'') (js ''t1'') (js ''t2'') (js ''t3'')
       networkDown = (initChat\<lparr>input := [0x20, 0x0A, 0xA0]\<rparr>, []) \<and>
   isLoading (typedHi\<lparr>isLoading := True\<rparr>) \<and>
   sendMessage (typedHi\<lparr>isLoading := True\<rparr>) (js ''s1'') (js ''t1'') (js ''t2'') (js ''t3'')
       networkDown = (typedHi\<lparr>isLoading := True\<rparr>, [])"
proof -
  have a: "list_all isWhiteSpace (input (initChat\<lparr>input := [0x20, 0x0A, 0xA0]\<rparr>))"
    by (simp add: isWhiteSpace_def)
  have b: "isLoading (typedHi\<lparr>isLoading := True\<rparr>)"
    by simp
  from a b
    sendMessage_blocked [OF disjI1 [OF a], of "js ''s1''" "js ''t1''" "js ''t2''" "js ''t3''" networkDown]
    sendMessage_blocked [OF disjI2 [OF b], of "js ''s1''" "js ''t1''" "js ''t2''" "js ''t3''" networkDown]
  show ?thesis by blast
qed

text \<open>
  C4. When the history request resolves with \<open>success\<close> and \<open>n\<close> message pairs,
  \<open>loadChatHistory\<close> sets the message list to \<open>2 n\<close> messages: for each \<open>i < n\<close>, entry
  \<open>2 i\<close> is a user message with the user text of pair \<open>i\<close> and entry \<open>2 i + 1\<close> a bot
  message with the bot response of pair \<open>i\<close>, both with the timestamp of pair \<open>i\<close> and
  neither a placeholder nor an error, so the pairs appear in the order of the response.
\<close>

theorem loadChatHistory_pairs:
  assumes "respond (GET (historyUrl sid)) = Resolved dat" and "hb_success dat"
  shows "length (messages (loadChatHistory s sid respond)) = 2 * length (hb_messages dat) \<and>
    (\<forall>i < length (hb_messages dat).
       msg_sender (messages (loadChatHistory s sid respond) ! (2 * i)) = User \<and>
       msg_text (messages (loadChatHistory s sid respond) ! (2 * i))
         = user_message (hb_messages dat ! i) \<and>
       msg_timestamp (messages (loadChatHistory s sid respond) ! (2 * i))
         = pair_timestamp (hb_messages dat ! i) \<and>
       \<not> msg_isLoading (messages (loadChatHistory s sid respond) ! (2 * i)) \<and>
       \<not> msg_isError (messages (loadChatHistory s sid respond) ! (2 * i)) \<and>
       msg_sender (messages (loadChatHistory s sid respond) ! (2 * i + 1)) = Bot \<and>
       msg_text (messages (loadChatHistory s sid respond) ! (2 * i + 1))
         = bot_response (hb_messages dat ! i) \<and>
       msg_timestamp (messages (loadChatHistory s sid respond) ! (2 * i + 1))
         = pair_timestamp (hb_messages dat ! i) \<and>
       msg_responseTime (messages (loadChatHistory s sid respond) ! (2 * i + 1))
         = response_time_ms (hb_messages dat ! i) \<and>
       \<not> msg_isLoading (messages (loadChatHistory s sid respond) ! (2 * i + 1)) \<and>
       \<not> msg_isError (messages (loadChatHistory s sid respond) ! (2 * i + 1)))"
proof -
  have m: "messages (loadChatHistory s sid respond) = concat (map pairMessages (hb_messages dat))"
    using assms by (simp add: loadChatHistory_def Let_def)
  show ?thesis
    unfolding m using history_nth [of _ "hb_messages dat"]
    by (simp add: history_length pairMessages_def userMsg_def)
qed

theorem loadChatHistory_pairs_witness:
  "sampleHistory (GET (historyUrl (js ''s1'')))
     = Resolved \<lparr>hb_success = True, hb_messages = [samplePair, samplePair2]\<rparr> \<and>
   hb_success \<lparr>hb_success = True, hb_messages = [samplePair, samplePair2]\<rparr> \<and>
   length (messages (loadChatHistory typedHi (js ''s1'') sampleHistory)) = 4 \<and>
   map msg_sender (messages (loadChatHistory typedHi (js ''s1'') sampleHistory))
     = [User, Bot, User, Bot] \<and>
   map msg_text (messages (loadChatHistory typedHi (js ''s1'') sampleHistory))
     = [js ''q'', js ''a'', js ''q2'', js ''a2''] \<and>
   msg_text (messages (loadChatHistory typedHi (js ''s1'') sampleHistory) ! (2 * 1)) = js ''q2'' \<and>
   msg_timestamp (messages (loadChatHistory typedHi (js ''s1'') sampleHistory) ! (2 * 1))
     = js ''2024-01-01T00:05:00'' \<and>
   msg_text (messages (loadChatHistory typedHi (js ''s1'') sampleHistory) ! (2 * 1 + 1)) = js ''a2''"
proof -
  let ?dat = "\<lparr>hb_success = True, hb_messages = [samplePair, samplePair2]\<rparr>"
  let ?M = "messages (loadChatHistory typedHi (js ''s1'') sampleHistory)"
  have r: "sampleHistory (GET (historyUrl (js ''s1''))) = Resolved ?dat"
    by (simp add: sampleHistory_def)
  have ok: "hb_success ?dat"
    by simp
  note t = loadChatHistory_pairs [where respond = sampleHistory and sid = "js ''s1''"
      and s = typedHi and dat = ?dat, OF r ok]
  from t have len: "length ?M = 4"
    by simp
  have one: "1 < length (hb_messages ?dat)"
    by simp
  from t [THEN conjunct2, rule_format, OF one]
  have second: "msg_text (?M ! (2 * 1)) = js ''q2''"
      "msg_timestamp (?M ! (2 * 1)) = js ''2024-01-01T00:05:00''"
      "msg_text (?M ! (2 * 1 + 1)) = js ''a2''"
    by (simp_all add: samplePair2_def)
  have all: "?M = concat (map pairMessages [samplePair, samplePair2])"
    by (simp add: loadChatHistory_def Let_def sampleHistory_def)
  have "map msg_sender ?M = [User, Bot, User, Bot]"
    and "map msg_text ?M = [js ''q'', js ''a'', js ''q2'', js ''a2'']"
    unfolding all by (simp_all add: pairMessages_def userMsg_def samplePair_def samplePair2_def)
  with r ok len second show ?thesis
    by simp
qed

text \<open>
  What \<open>clearChat\<close> does for each outcome: a resolved request empties the list and
  the error state, whatever the body of the response says; a rejected request, or a
  declined confirmation, leaves the list as it was.
\<close>

lemma clearChat_outcomes:
  "(respond (DELETE (clearUrl sid)) = Resolved dat \<longrightarrow>
      messages (clearChat s sid True respond) = [] \<and>
      chat_error (clearChat s sid True respond) = []) \<and>
   (respond (DELETE (clearUrl sid)) = Rejected re m \<longrightarrow>
      messages (clearChat s sid True respond) = messages s) \<and>
   messages (clearChat s sid False respond) = messages s"
  by (simp add: clearChat_def)

text \<open>
  C5 fails on the code: when the server answers the delete request with
  \<open>success: false\<close> in a resolved response, which \<open>sendMessage\<close>, \<open>loadChatHistory\<close>
  and \<open>removePDF\<close> treat as a failure, \<open>clearChat\<close> does not read the flag: it empties
  the message list and the error state, although nothing was deleted.
\<close>

theorem clearChat_refused_delete:
  "messages oneMessage = [userMsg (js ''q'') (js ''t1'')] \<and>
   refused (DELETE (clearUrl (js ''s1'')))
     = Resolved \<lparr>pb_success = False, pb_error = Some (js ''Database error'')\<rparr> \<and>
   messages (clearChat oneMessage (js ''s1'') True refused) = [] \<and>
   chat_error (clearChat oneMessage (js ''s1'') True refused) = []"
  by (simp add: clearChat_def refused_def oneMessage_def initChat_def)

section \<open>Properties of the document list\<close>

lemma uploadedPDFs_loadSessionInfo: "uploadedPDFs (loadSessionInfo s respond) = uploadedPDFs s"
  by (simp add: loadSessionInfo_def split: axios_result.splits)

lemma uploadedPDFs_handlePDFRemoved:
  "uploadedPDFs (handlePDFRemoved s X respond) = filter (\<lambda>pdf. pdf_id pdf \<noteq> X) (uploadedPDFs s)"
  by (simp add: handlePDFRemoved_def uploadedPDFs_loadSessionInfo)

text \<open>
  C6. A successful removal of document \<open>X\<close> (confirmed, resolved, \<open>success\<close> set)
  replaces the list of uploaded documents by its entries whose id is not \<open>X\<close>, in
  their order and unchanged; any other outcome leaves the state of the shell, and with
  it the list, as it was.
\<close>

theorem removePDF_list:
  "(removalSucceeds confirmed (respond (DELETE (removeUrl (sessionId app) X))) \<longrightarrow>
      uploadedPDFs (fst (removePDF (app, m) X filename confirmed respond respondInfo))
        = filter (\<lambda>pdf. pdf_id pdf \<noteq> X) (uploadedPDFs app)) \<and>
   (\<not> removalSucceeds confirmed (respond (DELETE (removeUrl (sessionId app) X))) \<longrightarrow>
      fst (removePDF (app, m) X filename confirmed respond respondInfo) = app \<and>
      uploadedPDFs (fst (removePDF (app, m) X filename confirmed respond respondInfo))
        = uploadedPDFs app)"
  by (cases "respond (DELETE (removeUrl (sessionId app) X))")
     (simp_all add: removePDF_def removalSucceeds_def Let_def uploadedPDFs_handlePDFRemoved)

theorem removePDF_list_witness:
  "removalSucceeds True (accepted (DELETE (removeUrl (sessionId twoDocs) 1))) \<and>
   uploadedPDFs (fst (removePDF (twoDocs, idleManager) 1 (js ''a.pdf'') True accepted networkDown))
     = [pdfTwo] \<and>
   \<not> removalSucceeds True (networkDown (DELETE (removeUrl (sessionId twoDocs) 1))) \<and>
   uploadedPDFs (fst (removePDF (twoDocs, idleManager) 1 (js ''a.pdf'') True networkDown networkDown))
     = [pdfOne, pdfTwo]"
proof -
  have a: "removalSucceeds True (accepted (DELETE (removeUrl (sessionId twoDocs) 1)))"
    by (simp add: removalSucceeds_def accepted_def)
  have b: "\<not> removalSucceeds True (networkDown (DELETE (removeUrl (sessionId twoDocs) 1)))"
    by (simp add: removalSucceeds_def networkDown_def)
  have l: "uploadedPDFs twoDocs = [pdfOne, pdfTwo]"
    by (simp add: twoDocs_def)
  have ids: "pdf_id pdfOne = 1" "pdf_id pdfTwo = 2"
    by (simp_all add: pdfOne_def pdfTwo_def)
  from a b
    removePDF_list [where confirmed = True and respond = accepted and app = twoDocs and X = 1
      and m = idleManager and filename = "js ''a.pdf''" and respondInfo = networkDown]
    removePDF_list [where confirmed = True and respond = networkDown and app = twoDocs and X = 1
      and m = idleManager and filename = "js ''a.pdf''" and respondInfo = networkDown]
  show ?thesis by (simp add: l ids)
qed

section \<open>Properties of the size display\<close>

lemma floorLog1024_bounds:
  "0 < n \<Longrightarrow> 1024 ^ floorLog1024 n \<le> n \<and> n < 1024 ^ (floorLog1024 n + 1)"
proof (induction n rule: floorLog1024.induct)
  case (1 n)
  show ?case
  proof (cases "n < 1024")
    case True
    with 1 show ?thesis by (simp add: floorLog1024.simps)
  next
    case False
    then have pos: "0 < n div 1024" by simp
    from 1 False pos have ih: "1024 ^ floorLog1024 (n div 1024) \<le> n div 1024"
      "n div 1024 < 1024 ^ (floorLog1024 (n div 1024) + 1)"
      by simp_all
    have eq: "floorLog1024 n = Suc (floorLog1024 (n div 1024))"
      using False by (simp add: floorLog1024.simps)
    have "1024 * 1024 ^ floorLog1024 (n div 1024) \<le> 1024 * (n div 1024)"
      using ih(1) by simp
    also have "\<dots> \<le> n" by simp
    finally have lo: "1024 ^ floorLog1024 n \<le> n" by (simp add: eq)
    have "n div 1024 + 1 \<le> 1024 ^ (floorLog1024 (n div 1024) + 1)"
      using ih(2) by simp
    then have "1024 * (n div 1024 + 1) \<le> 1024 * 1024 ^ (floorLog1024 (n div 1024) + 1)"
      by (rule mult_le_mono2)
    moreover have "n < 1024 * (n div 1024 + 1)"
      using dividend_less_times_div [of 1024 n] by simp
    ultimately have hi: "n < 1024 ^ (floorLog1024 n + 1)" by (simp add: eq)
    from lo hi show ?thesis by simp
  qed
qed

text \<open>The index is the floor of the quotient of logarithms that the source computes.\<close>

lemma floorLog1024_log:
  "0 < n \<Longrightarrow> int (floorLog1024 n) = \<lfloor>ln (real n) / ln 1024\<rfloor>"
proof -
  assume "0 < n"
  then have "(1024::nat) ^ floorLog1024 n \<le> n" "n < (1024::nat) ^ (floorLog1024 n + 1)"
    using floorLog1024_bounds [of n] by simp_all
  then have "\<lfloor>log (real (1024::nat)) (real n)\<rfloor> = int (floorLog1024 n)"
    by (rule floor_log_nat_eq_if) simp
  then show ?thesis by (simp add: log_def)
qed

lemma floorLog1024_large: "1024 ^ 4 \<le> n \<Longrightarrow> 4 \<le> floorLog1024 n"
proof (rule ccontr)
  assume big: "1024 ^ 4 \<le> n" and "\<not> 4 \<le> floorLog1024 n"
  then have "floorLog1024 n + 1 \<le> 4" by simp
  then have "(1024::nat) ^ (floorLog1024 n + 1) \<le> 1024 ^ 4"
    by (rule power_increasing) simp
  moreover have "n < 1024 ^ (floorLog1024 n + 1)"
    using floorLog1024_bounds [of n] big by simp
  ultimately show False using big by simp
qed

lemma endsWith_append: "length u \<le> length t \<Longrightarrow> endsWith (xs @ t) u = endsWith t u"
  by (simp add: endsWith_def)

lemma endsWith_self_append: "endsWith (xs @ u) u"
  by (simp add: endsWith_def)

lemma undefined_not_known: "\<not> hasKnownUnit (xs @ js '' undefined'')"
proof -
  have "\<not> endsWith (xs @ js '' undefined'') (js '' '' @ u)" if "u \<in> set sizes" for u
  proof -
    from that have "length (js '' '' @ u) \<le> length (js '' undefined'')"
      by (auto simp: sizes_def js_def)
    then have "endsWith (xs @ js '' undefined'') (js '' '' @ u) = endsWith (js '' undefined'') (js '' '' @ u)"
      by (rule endsWith_append)
    also have "\<dots> = False"
      using that by (auto simp: sizes_def js_def endsWith_def)
    finally show ?thesis by simp
  qed
  then show ?thesis
    by (simp add: hasKnownUnit_def list_ex_iff)
qed

text \<open>The display ends in one of the four units exactly below \<open>1024 ^ 4\<close> bytes.\<close>

lemma formatFileSize_known_unit_iff: "hasKnownUnit (formatFileSize bytes) \<longleftrightarrow> bytes < 1024 ^ 4"
proof (cases "bytes = 0")
  case True
  have "endsWith (js ''0 Bytes'') (js '' '' @ js ''Bytes'')"
    by (simp add: endsWith_def js_def)
  then have "hasKnownUnit (js ''0 Bytes'')"
    by (simp add: hasKnownUnit_def sizes_def)
  with True show ?thesis by (simp add: formatFileSize_def)
next
  case False
  then have pos: "0 < bytes" by simp
  let ?i = "floorLog1024 bytes"
  have f: "formatFileSize bytes = showHundredths (hundredths bytes ?i) @ js '' '' @ sizeUnit ?i"
    using False by (simp add: formatFileSize_def Let_def)
  show ?thesis
  proof (cases "bytes < 1024 ^ 4")
    case True
    have "?i < 4"
    proof (rule ccontr)
      assume "\<not> ?i < 4"
      then have "(1024::nat) ^ 4 \<le> 1024 ^ ?i" by (intro power_increasing) simp_all
      also have "\<dots> \<le> bytes" using floorLog1024_bounds [OF pos] by simp
      finally show False using True by simp
    qed
    then have "?i < length sizes"
      by (simp add: sizes_def)
    then have u: "sizeUnit ?i \<in> set sizes"
      by (simp add: sizeUnit_def)
    have "endsWith (formatFileSize bytes) (js '' '' @ sizeUnit ?i)"
      unfolding f using endsWith_self_append [of "showHundredths (hundredths bytes ?i)" "js '' '' @ sizeUnit ?i"]
      by simp
    with u have "hasKnownUnit (formatFileSize bytes)"
      unfolding hasKnownUnit_def list_ex_iff by blast
    with True show ?thesis by simp
  next
    case False
    then have "4 \<le> ?i" by (intro floorLog1024_large) simp
    then have "sizeUnit ?i = js ''undefined''"
      by (simp add: sizeUnit_def sizes_def)
    then have "formatFileSize bytes = showHundredths (hundredths bytes ?i) @ js '' undefined''"
      by (simp add: f js_def)
    with undefined_not_known False show ?thesis by simp
  qed
qed

text \<open>
  C8 fails on the code: for two tebibytes the index is 4, past the end of the four
  units, and the display ends in \<open>undefined\<close>.
\<close>

theorem formatFileSize_two_tebibytes:
  "floorLog1024 (2 * 1024 ^ 4) = 4 \<and>
   formatFileSize (2 * 1024 ^ 4) = js ''2 undefined'' \<and>
   \<not> hasKnownUnit (formatFileSize (2 * 1024 ^ 4))"
proof -
  have i: "floorLog1024 2199023255552 = 4"
    by (simp add: floorLog1024.simps)
  have f: "formatFileSize 2199023255552 = js ''2 undefined''"
    by (simp add: formatFileSize_def i hundredths_def showHundredths_def showNat.simps
          sizeUnit_def sizes_def js_def)
  have "\<not> hasKnownUnit (js ''2 undefined'')"
    by (simp add: hasKnownUnit_def sizes_def endsWith_def js_def)
  with i f show ?thesis by simp
qed

section \<open>Properties of the chunker\<close>

lemma windows_Nil: "windows w step [] = []"
  by (simp add: windows.simps)

lemma windows_length:
  "0 < step \<Longrightarrow> length (windows w step tx) = (length tx + step - 1) div step"
proof (induction w step tx rule: windows.induct)
  case (1 w step tx)
  show ?case
  proof (cases "tx = []")
    case True
    with 1(2) show ?thesis by (simp add: windows.simps)
  next
    case False
    with 1 have ih: "length (windows w step (drop step tx)) = (length (drop step tx) + step - 1) div step"
      by simp
    have unfold: "windows w step tx = take w tx # windows w step (drop step tx)"
      using False 1(2) by (subst windows.simps) simp
    show ?thesis
    proof (cases "length tx \<le> step")
      case True
      with False 1(2) have "(length tx + step - 1) div step = 1"
        by (cases tx) (simp_all add: div_nat_eqI)
      with True ih 1(2) unfold show ?thesis by simp
    next
      case long: False
      then have "length tx + step - 1 = (length tx - step + step - 1) + step"
        by simp
      then have "(length tx + step - 1) div step = Suc ((length tx - step + step - 1) div step)"
        using 1(2) by (simp only: div_add_self2)
      with ih unfold show ?thesis by simp
    qed
  qed
qed

lemma chunker_scenario:
  "length txt = 2400 \<Longrightarrow>
     \<exists>cs. chunker \<lparr>chunk_size = 1000, overlap = 200\<rparr> txt = Inr cs \<and> length cs = 3"
  by (simp add: chunker_def windows_length)

text \<open>
  C7. For every text and every configuration with a positive \<open>chunk_size\<close> and an
  \<open>overlap\<close> of at least \<open>chunk_size\<close>, the chunker fails with \<open>InvalidChunkConfig\<close>
  and gives no chunk sequence.
\<close>

theorem chunker_invalid_config:
  "0 < chunk_size cfg \<Longrightarrow> chunk_size cfg \<le> overlap cfg \<Longrightarrow>
     chunker cfg txt = Inl InvalidChunkConfig \<and> (\<forall>cs. chunker cfg txt \<noteq> Inr cs)"
  by (simp add: chunker_def)

theorem chunker_invalid_config_witness:
  "0 < chunk_size \<lparr>chunk_size = 1000, overlap = 1000\<rparr> \<and>
   chunk_size \<lparr>chunk_size = 1000, overlap = 1000\<rparr> \<le> overlap \<lparr>chunk_size = 1000, overlap = 1000\<rparr> \<and>
   chunker \<lparr>chunk_size = 1000, overlap = 1000\<rparr> (js ''some text'') = Inl InvalidChunkConfig"
proof -
  have a: "0 < chunk_size \<lparr>chunk_size = 1000, overlap = 1000\<rparr>"
    and b: "chunk_size \<lparr>chunk_size = 1000, overlap = 1000\<rparr> \<le> overlap \<lparr>chunk_size = 1000, overlap = 1000\<rparr>"
    by simp_all
  from a b chunker_invalid_config [OF a b, of "js ''some text''"] show ?thesis
    by blast
qed

section \<open>Properties of the retriever\<close>

lemma set_insertRanked: "set (insertRanked before x xs) = insert x (set xs)"
  by (induction xs) auto

lemma set_sortRanked: "set (sortRanked before xs) = set xs"
  by (induction xs) (simp_all add: sortRanked_def set_insertRanked)

lemma query_session: "c \<in> set (query st sim sid q k) \<Longrightarrow> c \<in> set (chunks st) \<and> chunkSession st c = Some sid"
proof -
  assume "c \<in> set (query st sim sid q k)"
  then have "c \<in> set (sortRanked (ranksBefore st sim q)
               (filter (\<lambda>c. chunkSession st c = Some sid) (chunks st)))"
    unfolding query_def by (rule in_set_takeD)
  then show ?thesis by (simp add: set_sortRanked)
qed

lemma storeReachable_wellformed:
  "storeReachable st \<Longrightarrow>
     (\<forall>did doc. documents st did = Some doc \<longrightarrow> doc_session doc \<in> set (sessions st)) \<and>
     (\<forall>c \<in> set (chunks st). documents st (chunk_document c) \<noteq> None) \<and>
     (\<forall>msg \<in> set (stored_messages st). sm_session msg \<in> set (sessions st))"
proof (induction rule: storeReachable.induct)
  case initial
  show ?case by (simp add: emptyStore_def)
next
  case (session_created st sid)
  then show ?case by (auto simp: createSession_def)
next
  case (document_added st sid did filename bytes uploaded st')
  from document_added(2) have "sid \<in> set (sessions st)" "documents st did = None"
    and "st' = st\<lparr>documents := (documents st)(did \<mapsto>
                  \<lparr>doc_session = sid, doc_filename = filename, doc_size = bytes,
                   doc_uploaded = uploaded\<rparr>)\<rparr>"
    by (auto simp: addDocument_def split: if_splits)
  with document_added.IH show ?case by auto
next
  case (chunk_put st sid did chunk vector st')
  from chunk_put(2) obtain doc where "documents st did = Some doc"
    and "st' = st\<lparr>chunks := chunks st @
                      [\<lparr>chunk_id = fst chunk, chunk_document = did,
                        chunk_index = fst (snd chunk), chunk_text = snd (snd chunk),
                        chunk_vector = vector\<rparr>]\<rparr>"
    by (auto simp: put_def split: option.splits if_splits)
  with chunk_put.IH show ?case by auto
next
  case (document_deleted st sid did st')
  from document_deleted(2)
  have "st' = st\<lparr>documents := (documents st)(did := None),
                      chunks := filter (\<lambda>c. chunk_document c \<noteq> did) (chunks st)\<rparr>"
    by (auto simp: deleteDocument_def split: option.splits if_splits)
  with document_deleted.IH show ?case by auto
next
  case (message_appended st msg st')
  from message_appended(2) have "sm_session msg \<in> set (sessions st)"
    and "st' = st\<lparr>stored_messages := stored_messages st @ [msg]\<rparr>"
    by (auto simp: appendMessage_def split: if_splits)
  with message_appended.IH show ?case by auto
next
  case (messages_cleared st sid)
  then show ?case by (auto simp: clearMessages_def)
next
  case (session_deleted st sid)
  then show ?case
    by (auto simp: deleteSession_def chunkSession_def documentSession_def split: option.splits)
qed

lemma storeReachable_owner:
  assumes "storeReachable st" and "present st e"
  shows "\<exists>S. owns st S e"
proof (cases e)
  case (DocumentOf did)
  with assms(2) obtain doc where "documents st did = Some doc"
    by (auto simp: present_def)
  with storeReachable_wellformed [OF assms(1)] DocumentOf show ?thesis
    by (auto simp: owns_def owner_def documentSession_def)
next
  case (ChunkOf c)
  with assms(2) have "c \<in> set (chunks st)"
    by (simp add: present_def)
  with storeReachable_wellformed [OF assms(1)] obtain doc
    where "documents st (chunk_document c) = Some doc"
    by auto
  with storeReachable_wellformed [OF assms(1)] ChunkOf show ?thesis
    by (auto simp: owns_def owner_def chunkSession_def documentSession_def)
next
  case (MessageOf msg)
  with assms(2) have "msg \<in> set (stored_messages st)"
    by (simp add: present_def)
  with storeReachable_wellformed [OF assms(1)] MessageOf show ?thesis
    by (auto simp: owns_def owner_def)
qed

lemma owns_unique: "owns st S e \<Longrightarrow> owns st S' e \<Longrightarrow> S = S'"
  by (simp add: owns_def)

lemma reachable_twoSessions: "storeReachable twoSessions"
proof -
  let ?s1 = "js ''s1''" and ?s2 = "js ''s2''"
  let ?t1 = "\<lparr>sessions = [?s1], documents = Map.empty, chunks = ([] :: int chunk list),
               stored_messages = []\<rparr>"
  let ?t2 = "?t1\<lparr>sessions := [?s1, ?s2]\<rparr>"
  let ?t3 = "?t2\<lparr>documents := [10 \<mapsto> docOfS1]\<rparr>"
  let ?t4 = "?t3\<lparr>documents := [10 \<mapsto> docOfS1, 20 \<mapsto> docOfS2]\<rparr>"
  let ?t5 = "?t4\<lparr>chunks := [chunkAA]\<rparr>"
  let ?t6 = "?t5\<lparr>chunks := [chunkAA, chunkBB]\<rparr>"
  let ?t7 = "?t6\<lparr>chunks := [chunkAA, chunkBB, chunkCC]\<rparr>"
  have ne: "?s2 \<noteq> ?s1"
    by (simp add: js_def)
  have "storeReachable (createSession (emptyStore :: int store) ?s1)"
    by (rule storeReachable.session_created) (rule storeReachable.initial)
  moreover have "createSession (emptyStore :: int store) ?s1 = ?t1"
    by (simp add: createSession_def emptyStore_def)
  ultimately have r1: "storeReachable ?t1"
    by simp
  have "storeReachable (createSession ?t1 ?s2)"
    using r1 by (rule storeReachable.session_created)
  moreover have "createSession ?t1 ?s2 = ?t2"
    by (simp add: createSession_def ne)
  ultimately have r2: "storeReachable ?t2"
    by simp
  have "addDocument ?t2 ?s1 10 (js ''a.pdf'') 2048 1 = Inr ?t3"
    by (simp add: addDocument_def docOfS1_def)
  with r2 have r3: "storeReachable ?t3"
    by (rule storeReachable.document_added)
  have "addDocument ?t3 ?s2 20 (js ''b.pdf'') 4096 2 = Inr ?t4"
    by (simp add: addDocument_def docOfS2_def)
  with r3 have r4: "storeReachable ?t4"
    by (rule storeReachable.document_added)
  have "put ?t4 ?s1 10 (1, 0, js ''aa'') 5 = Inr ?t5"
    by (simp add: put_def docOfS1_def chunkAA_def)
  with r4 have r5: "storeReachable ?t5"
    by (rule storeReachable.chunk_put)
  have "put ?t5 ?s2 20 (2, 0, js ''bb'') 0 = Inr ?t6"
    by (simp add: put_def docOfS2_def chunkBB_def)
  with r5 have r6: "storeReachable ?t6"
    by (rule storeReachable.chunk_put)
  have "put ?t6 ?s1 10 (3, 1, js ''cc'') 1 = Inr ?t7"
    by (simp add: put_def docOfS1_def chunkCC_def)
  with r6 have r7: "storeReachable ?t7"
    by (rule storeReachable.chunk_put)
  have "appendMessage ?t7 firstTurn = Inr twoSessions"
    by (simp add: appendMessage_def twoSessions_def firstTurn_def)
  with r7 show ?thesis
    by (rule storeReachable.message_appended)
qed

text \<open>
  C1. Every result of a retrieval for session \<open>A\<close> names a document of session \<open>A\<close>,
  and of no other session \<open>B\<close>, for every store, query text and \<open>k\<close>. In every store
  that the operations lead to, every document, every chunk and every message pair is
  owned by exactly one session of the store.
\<close>

theorem retrieve_session_scoped:
  "(A \<noteq> B \<longrightarrow> retrieve st embedder sim A queryText k = Inr results \<longrightarrow>
      (snippet, d, score) \<in> set results \<longrightarrow>
        documentSession st d = Some A \<and> documentSession st d \<noteq> Some B \<and>
        (\<exists>c \<in> set (chunks st). chunk_text c = snippet \<and> chunk_document c = d \<and>
                               chunkSession st c = Some A \<and> chunkSession st c \<noteq> Some B)) \<and>
   (storeReachable st \<longrightarrow> present st e \<longrightarrow> (\<exists>!S. owns st S e))"
proof -
  have scoped: "documentSession st d = Some A \<and> documentSession st d \<noteq> Some B \<and>
        (\<exists>c \<in> set (chunks st). chunk_text c = snippet \<and> chunk_document c = d \<and>
                               chunkSession st c = Some A \<and> chunkSession st c \<noteq> Some B)"
    if ab: "A \<noteq> B" and res: "retrieve st embedder sim A queryText k = Inr results"
      and mem: "(snippet, d, score) \<in> set results"
  proof -
    from res obtain q where q: "embedder queryText = Inr q"
      and r: "results = map (\<lambda>c. (chunk_text c, chunk_document c, sim q (chunk_vector c)))
                          (query st sim A q k)"
      by (auto simp: retrieve_def split: sum.splits)
    from mem r obtain c where c: "c \<in> set (query st sim A q k)"
      and t: "snippet = chunk_text c" and dd: "d = chunk_document c"
      by auto
    from query_session [OF c] have own: "c \<in> set (chunks st)" "chunkSession st c = Some A"
      by simp_all
    then have "documentSession st d = Some A"
      by (simp add: chunkSession_def dd)
    with ab own t dd show ?thesis by auto
  qed
  have owned: "\<exists>!S. owns st S e" if "storeReachable st" "present st e"
    using storeReachable_owner [OF that] owns_unique by blast
  from scoped owned show ?thesis by blast
qed

theorem retrieve_session_scoped_witness:
  "js ''s1'' \<noteq> js ''s2'' \<and>
   retrieve twoSessions zeroEmbedder closeness (js ''s1'') (js ''fever'') 5
     = Inr [(js ''cc'', 10, - 1), (js ''aa'', 10, - 5)] \<and>
   (js ''cc'', 10, - 1) \<in> set [(js ''cc'', 10, - 1), (js ''aa'', 10, - 5 :: int)] \<and>
   documentSession twoSessions 10 = Some (js ''s1'') \<and>
   documentSession twoSessions 10 \<noteq> Some (js ''s2'') \<and>
   storeReachable twoSessions \<and> present twoSessions (MessageOf firstTurn) \<and>
   owns twoSessions (js ''s2'') (MessageOf firstTurn) \<and>
   (\<exists>!S. owns twoSessions S (MessageOf firstTurn))"
proof -
  have ne: "js ''s1'' \<noteq> js ''s2''"
    by (simp add: js_def)
  have own: "chunkSession twoSessions c = (if chunk_document c = 10 then Some (js ''s1'')
                else if chunk_document c = 20 then Some (js ''s2'') else None)" for c
    by (simp add: chunkSession_def documentSession_def twoSessions_def docOfS1_def docOfS2_def)
  have r: "retrieve twoSessions zeroEmbedder closeness (js ''s1'') (js ''fever'') 5
     = Inr [(js ''cc'', 10, - 1), (js ''aa'', 10, - 5)]"
    unfolding retrieve_def query_def own
    by (simp add: zeroEmbedder_def twoSessions_def sortRanked_def ranksBefore_def closeness_def
          chunkAA_def chunkBB_def chunkCC_def ne [symmetric])
  have m: "(js ''cc'', 10, - 1) \<in> set [(js ''cc'', 10, - 1), (js ''aa'', 10, - 5 :: int)]"
    by simp
  have p: "present twoSessions (MessageOf firstTurn)"
    by (simp add: present_def twoSessions_def)
  have o: "owns twoSessions (js ''s2'') (MessageOf firstTurn)"
    by (simp add: owns_def owner_def twoSessions_def firstTurn_def)
  note t = retrieve_session_scoped [where A = "js ''s1''" and B = "js ''s2''" and st = twoSessions
      and embedder = zeroEmbedder and sim = closeness and queryText = "js ''fever''" and k = 5
      and results = "[(js ''cc'', 10, - 1), (js ''aa'', 10, - 5)]" and snippet = "js ''cc''"
      and d = 10 and score = "- 1" and e = "MessageOf firstTurn"]
  from t [THEN conjunct1, THEN mp, OF ne, THEN mp, OF r, THEN mp, OF m]
  have a: "documentSession twoSessions 10 = Some (js ''s1'')"
    "documentSession twoSessions 10 \<noteq> Some (js ''s2'')"
    by (simp_all add: ne)
  from t [THEN conjunct2, THEN mp, OF reachable_twoSessions, THEN mp, OF p]
  have b: "\<exists>!S. owns twoSessions S (MessageOf firstTurn)" .
  from ne r m a reachable_twoSessions p o b show ?thesis
    by blast
qed

end
